theory Spec2Isabelle
  imports Main "HOL-Library.Word" "HOL-Library.Sublist"
begin

unbundle bit_operations_syntax

section \<open>Data model of the DPoR snapshot (consensus/dpor/snapshot.go)\<close>

text \<open>
  The embedding follows the first (current) version of \<^verbatim>\<open>snapshot.go\<close>, lines 1 to 733.
  Go's \<^verbatim>\<open>uint64\<close> is \<open>64 word\<close> (arithmetic wraps), \<^verbatim>\<open>int64\<close> is \<open>64 word\<close> read by \<open>sint\<close>,
  \<^verbatim>\<open>common.Address\<close> (20 bytes) is \<open>160 word\<close> and \<^verbatim>\<open>common.Hash\<close> (32 bytes, read
  big-endian by \<^verbatim>\<open>Hash.Big()\<close>) is \<open>256 word\<close>.  A slice is an \<open>address list\<close>; the nil
  slice and the empty slice are both \<open>[]\<close>.  No backing array of the file is written
  after the \<^verbatim>\<open>copy(dst, src)\<close> that fills it at allocation, so slices are values.
  Go maps are reference objects that the setters update in place: they live in a store and
  a snapshot struct holds references to them.  Snapshot structs are handled through
  pointers and live in the store as well.  Locks are not modelled.
\<close>

type_synonym address = "160 word"
type_synonym hash = "256 word"
type_synonym uint64 = "64 word"
type_synonym int64 = "64 word"
type_synonym committees = "uint64 \<rightharpoonup> address list"

datatype error =
    InvalidChain
  | ValidatorNotInCommittee
  | ProposerNotInCommittee
  | SignerNotInCommittee
  | GenesisBlockNumber
  | NotFound
  | MarshalError
  | UnmarshalError
  | PanicDivideByZero
  | PanicSliceBounds

record DporConfig =
  TermLen :: uint64
  ViewLen :: uint64
  MaxInitBlockNumber :: uint64

text \<open>
  The struct \<^verbatim>\<open>DporSnapshot\<close>.  The three map fields are references into the store;
  \<open>config\<close> is the configuration the pointer refers to (it is only read);
  \<open>ContractCaller\<close> is an opaque handle (\<open>None\<close> is the nil pointer).
\<close>

record DporSnapshot =
  Number :: uint64
  Hash :: hash
  Candidates :: "address list"
  RecentSigners :: nat
  RecentProposers :: nat
  RecentValidators :: nat
  config :: DporConfig
  ContractCaller :: "nat option"

text \<open>
  The store: snapshot structs and Go maps, each addressed by its index.  Allocation
  appends, so a new object never aliases an old one.
\<close>

record heap =
  snaps :: "DporSnapshot list"
  gomaps :: "committees list"

text \<open>
  A header, as far as the engine reads it: \<^verbatim>\<open>header.Number.Uint64()\<close> and
  \<^verbatim>\<open>header.Hash()\<close>.
\<close>

record Header =
  NumberU64 :: uint64
  HashOf :: hash

record Rpt =
  Address :: address
  RptValue :: int64

definition TermGapBetweenElectionAndMining :: uint64 where
  "TermGapBetweenElectionAndMining = 3"

definition MaxSizeOfRecentSigners :: uint64 where
  "MaxSizeOfRecentSigners = 5"

definition MaxSizeOfRecentValidators :: uint64 where
  "MaxSizeOfRecentValidators = 5"

definition MaxSizeOfRecentProposers :: uint64 where
  "MaxSizeOfRecentProposers = 5"

subsection \<open>The conversions through float64 in the setters\<close>

text \<open>
  \<^verbatim>\<open>float64(x)\<close> of a \<^verbatim>\<open>uint64\<close> rounds to 53 significant bits, ties to even.  The
  result is always a whole number, so it is represented by a natural number.
  \<open>roundingExponent n\<close> is the number of low bits of \<open>n < 2 ^ 64\<close> that do not fit.
\<close>

definition roundingExponent :: "nat \<Rightarrow> nat" where
  "roundingExponent n =
     (if n < 2 ^ 53 then 0 else if n < 2 ^ 54 then 1 else if n < 2 ^ 55 then 2
      else if n < 2 ^ 56 then 3 else if n < 2 ^ 57 then 4 else if n < 2 ^ 58 then 5
      else if n < 2 ^ 59 then 6 else if n < 2 ^ 60 then 7 else if n < 2 ^ 61 then 8
      else if n < 2 ^ 62 then 9 else if n < 2 ^ 63 then 10 else 11)"

definition float64_of_uint64 :: "uint64 \<Rightarrow> nat" where
  "float64_of_uint64 x =
     (let n = unat x; e = roundingExponent n; q = n div 2 ^ e; r = n mod 2 ^ e
      in if 2 * r < 2 ^ e then q * 2 ^ e
         else if 2 ^ e < 2 * r then (q + 1) * 2 ^ e
         else if even q then q * 2 ^ e
         else (q + 1) * 2 ^ e)"

text \<open>
  \<^verbatim>\<open>uint64(f)\<close> of a float64 holding a whole number: exact when the number fits; for
  the only other value that occurs here, \<open>2 ^ 64\<close>, Go leaves the result to the
  implementation, so it is the parameter \<open>ovf\<close>.
\<close>

definition uint64_of_float64 :: "uint64 \<Rightarrow> nat \<Rightarrow> uint64" where
  "uint64_of_float64 ovf v = (if v < 2 ^ 64 then of_nat v else ovf)"

text \<open>\<^verbatim>\<open>uint64(math.Max(0, float64(term-MaxSizeOfRecentSigners)))\<close>; the subtraction is on uint64.\<close>

definition beforeTerm :: "uint64 \<Rightarrow> uint64 \<Rightarrow> uint64 \<Rightarrow> uint64" where
  "beforeTerm ovf term maxSize =
     uint64_of_float64 ovf (max 0 (float64_of_uint64 (term - maxSize)))"

subsection \<open>Accessors\<close>

definition number :: "nat \<Rightarrow> heap \<Rightarrow> uint64" where
  "number p h = Number (snaps h ! p)"

definition setNumber :: "nat \<Rightarrow> uint64 \<Rightarrow> heap \<Rightarrow> heap" where
  "setNumber p n h = h\<lparr>snaps := (snaps h)[p := (snaps h ! p)\<lparr>Number := n\<rparr>]\<rparr>"

definition setHash :: "nat \<Rightarrow> hash \<Rightarrow> heap \<Rightarrow> heap" where
  "setHash p x h = h\<lparr>snaps := (snaps h)[p := (snaps h ! p)\<lparr>Hash := x\<rparr>]\<rparr>"

definition hash :: "nat \<Rightarrow> heap \<Rightarrow> hash" where
  "hash p h = Hash (snaps h ! p)"

definition candidates :: "nat \<Rightarrow> heap \<Rightarrow> address list" where
  "candidates p h = Candidates (snaps h ! p)"

definition setCandidates :: "nat \<Rightarrow> address list \<Rightarrow> heap \<Rightarrow> heap" where
  "setCandidates p cands h = h\<lparr>snaps := (snaps h)[p := (snaps h ! p)\<lparr>Candidates := cands\<rparr>]\<rparr>"

text \<open>The three getters below return a fresh map with the same entries: a map value.\<close>

definition recentSigners :: "nat \<Rightarrow> heap \<Rightarrow> committees" where
  "recentSigners p h = gomaps h ! RecentSigners (snaps h ! p)"

definition recentProposers :: "nat \<Rightarrow> heap \<Rightarrow> committees" where
  "recentProposers p h = gomaps h ! RecentProposers (snaps h ! p)"

definition recentValidators :: "nat \<Rightarrow> heap \<Rightarrow> committees" where
  "recentValidators p h = gomaps h ! RecentValidators (snaps h ! p)"

text \<open>A missing term gives the nil slice.\<close>

definition getRecentSigners :: "nat \<Rightarrow> uint64 \<Rightarrow> heap \<Rightarrow> address list" where
  "getRecentSigners p term h =
     (case (gomaps h ! RecentSigners (snaps h ! p)) term of None \<Rightarrow> [] | Some signers \<Rightarrow> signers)"

definition getRecentProposers :: "nat \<Rightarrow> uint64 \<Rightarrow> heap \<Rightarrow> address list" where
  "getRecentProposers p term h =
     (case (gomaps h ! RecentProposers (snaps h ! p)) term of None \<Rightarrow> [] | Some signers \<Rightarrow> signers)"

definition getRecentValidators :: "nat \<Rightarrow> uint64 \<Rightarrow> heap \<Rightarrow> address list" where
  "getRecentValidators p term h =
     (case (gomaps h ! RecentValidators (snaps h ! p)) term of None \<Rightarrow> [] | Some signers \<Rightarrow> signers)"

text \<open>
  The setters store a copy of the slice at \<open>term\<close>, then delete the entry of
  \<open>beforeTerm\<close> when the map has one.  They write the map object the struct refers to.
\<close>

definition setRecentSigners :: "uint64 \<Rightarrow> nat \<Rightarrow> uint64 \<Rightarrow> address list \<Rightarrow> heap \<Rightarrow> heap" where
  "setRecentSigners ovf p term signers h =
     (let r = RecentSigners (snaps h ! p);
          m = (gomaps h ! r)(term \<mapsto> signers);
          before = beforeTerm ovf term MaxSizeOfRecentSigners
      in h\<lparr>gomaps := (gomaps h)[r := (if m before \<noteq> None then m(before := None) else m)]\<rparr>)"

definition setRecentValidators :: "uint64 \<Rightarrow> nat \<Rightarrow> uint64 \<Rightarrow> address list \<Rightarrow> heap \<Rightarrow> heap" where
  "setRecentValidators ovf p term validators h =
     (let r = RecentValidators (snaps h ! p);
          m = (gomaps h ! r)(term \<mapsto> validators);
          before = beforeTerm ovf term MaxSizeOfRecentValidators
      in h\<lparr>gomaps := (gomaps h)[r := (if m before \<noteq> None then m(before := None) else m)]\<rparr>)"

definition setRecentProposers :: "uint64 \<Rightarrow> nat \<Rightarrow> uint64 \<Rightarrow> address list \<Rightarrow> heap \<Rightarrow> heap" where
  "setRecentProposers ovf p term proposers h =
     (let r = RecentProposers (snaps h ! p);
          m = (gomaps h ! r)(term \<mapsto> proposers);
          before = beforeTerm ovf term MaxSizeOfRecentProposers
      in h\<lparr>gomaps := (gomaps h)[r := (if m before \<noteq> None then m(before := None) else m)]\<rparr>)"

definition contractCaller :: "nat \<Rightarrow> heap \<Rightarrow> nat option" where
  "contractCaller p h = ContractCaller (snaps h ! p)"

definition setContractCaller :: "nat \<Rightarrow> nat option \<Rightarrow> heap \<Rightarrow> heap" where
  "setContractCaller p cc h = h\<lparr>snaps := (snaps h)[p := (snaps h ! p)\<lparr>ContractCaller := cc\<rparr>]\<rparr>"

subsection \<open>Term arithmetic\<close>

text \<open>Integer division by zero panics in Go; the product is a uint64 product.\<close>

definition Term :: "nat \<Rightarrow> heap \<Rightarrow> error + uint64" where
  "Term p h =
     (let c = config (snaps h ! p)
      in if number p h = 0 then Inr 0
         else if TermLen c * ViewLen c = 0 then Inl PanicDivideByZero
         else Inr ((number p h - 1) div (TermLen c * ViewLen c)))"

definition TermOf :: "nat \<Rightarrow> uint64 \<Rightarrow> heap \<Rightarrow> error + uint64" where
  "TermOf p blockNum h =
     (let c = config (snaps h ! p)
      in if blockNum = 0 then Inr 0
         else if TermLen c * ViewLen c = 0 then Inl PanicDivideByZero
         else Inr ((blockNum - 1) div (TermLen c * ViewLen c)))"

definition FutureTermOf :: "nat \<Rightarrow> uint64 \<Rightarrow> heap \<Rightarrow> error + uint64" where
  "FutureTermOf p blockNum h =
     (case TermOf p blockNum h of
        Inl e \<Rightarrow> Inl e
      | Inr t \<Rightarrow> Inr (t + TermGapBetweenElectionAndMining))"

subsection \<open>Committee queries\<close>

definition SignersOf :: "nat \<Rightarrow> uint64 \<Rightarrow> heap \<Rightarrow> error + address list" where
  "SignersOf p n h =
     (case TermOf p n h of Inl e \<Rightarrow> Inl e | Inr t \<Rightarrow> Inr (getRecentSigners p t h))"

definition ValidatorsOf :: "nat \<Rightarrow> uint64 \<Rightarrow> heap \<Rightarrow> error + address list" where
  "ValidatorsOf p n h =
     (case TermOf p n h of Inl e \<Rightarrow> Inl e | Inr t \<Rightarrow> Inr (getRecentValidators p t h))"

definition ProposersOf :: "nat \<Rightarrow> uint64 \<Rightarrow> heap \<Rightarrow> error + address list" where
  "ProposersOf p n h =
     (case TermOf p n h of Inl e \<Rightarrow> Inl e | Inr t \<Rightarrow> Inr (getRecentProposers p t h))"

text \<open>
  The loop \<^verbatim>\<open>for view, s := range committee { if s == signer { return view, nil } }\<close>:
  the position of the first occurrence.
\<close>

fun viewIn :: "address \<Rightarrow> address list \<Rightarrow> nat option" where
  "viewIn a [] = None"
| "viewIn a (s # ss) = (if s = a then Some 0 else map_option Suc (viewIn a ss))"

definition ProposerViewOf :: "nat \<Rightarrow> address \<Rightarrow> uint64 \<Rightarrow> heap \<Rightarrow> error + int" where
  "ProposerViewOf p proposer n h =
     (case ProposersOf p n h of
        Inl e \<Rightarrow> Inl e
      | Inr ps \<Rightarrow> (case viewIn proposer ps of
                     None \<Rightarrow> Inl ProposerNotInCommittee
                   | Some view \<Rightarrow> Inr (int view)))"

text \<open>
  \<^verbatim>\<open>view == int(((number-1)%(TermLen*ViewLen))/ViewLen)\<close>: both divisions panic on a zero
  divisor, and \<^verbatim>\<open>int(x)\<close> reads the 64 bits as signed.
\<close>

definition inturnSlot :: "DporConfig \<Rightarrow> uint64 \<Rightarrow> error + int" where
  "inturnSlot c n =
     (if TermLen c * ViewLen c = 0 then Inl PanicDivideByZero
      else if ViewLen c = 0 then Inl PanicDivideByZero
      else Inr (sint (((n - 1) mod (TermLen c * ViewLen c)) div ViewLen c)))"

definition IsLeaderOf :: "nat \<Rightarrow> address \<Rightarrow> uint64 \<Rightarrow> heap \<Rightarrow> error + bool" where
  "IsLeaderOf p signer n h =
     (if n = 0 then Inl GenesisBlockNumber
      else case ProposerViewOf p signer n h of
             Inl e \<Rightarrow> Inl e
           | Inr view \<Rightarrow> (case inturnSlot (config (snaps h ! p)) n of
                           Inl e \<Rightarrow> Inl e
                         | Inr slot \<Rightarrow> Inr (view = slot)))"

definition IsProposerOf :: "nat \<Rightarrow> address \<Rightarrow> uint64 \<Rightarrow> heap \<Rightarrow> error + bool" where
  "IsProposerOf p signer n h =
     (if n = 0 then Inl GenesisBlockNumber
      else case ProposerViewOf p signer n h of
             Inl e \<Rightarrow> Inl e
           | Inr view \<Rightarrow> (case inturnSlot (config (snaps h ! p)) n of
                           Inl e \<Rightarrow> Inl e
                         | Inr slot \<Rightarrow> Inr (view = slot)))"



subsection \<open>Construction, persistence and copy\<close>

text \<open>
  \<^verbatim>\<open>newSnapshot\<close> allocates the three maps and the struct (\<open>Candidates\<close> stays nil), then
  calls \<^verbatim>\<open>snap.setRecentSigners(snap.Term(), signers)\<close>.
\<close>

definition newSnapshot ::
  "uint64 \<Rightarrow> DporConfig \<Rightarrow> uint64 \<Rightarrow> hash \<Rightarrow> address list \<Rightarrow> heap \<Rightarrow> heap \<times> (error + nat)" where
  "newSnapshot ovf cfg num hsh signers h =
     (let r = length (gomaps h);
          snap = length (snaps h);
          h1 = h\<lparr>snaps := snaps h @
                  [\<lparr>Number = num, Hash = hsh, Candidates = [],
                    RecentSigners = r, RecentProposers = r + 1, RecentValidators = r + 2,
                    config = cfg, ContractCaller = None\<rparr>],
                gomaps := gomaps h @ [Map.empty, Map.empty, Map.empty]\<rparr>
      in case Term snap h1 of
           Inl e \<Rightarrow> (h1, Inl e)
         | Inr t \<Rightarrow> (setRecentSigners ovf snap t signers h1, Inr snap))"

text \<open>
  What \<^verbatim>\<open>encoding/json\<close> sees of a snapshot: the exported fields, with the maps by
  content.  The unexported \<open>config\<close> and \<open>lock\<close> are skipped.
\<close>

record SnapshotJSON =
  json_number :: uint64
  json_hash :: hash
  json_candidates :: "address list"
  json_signers :: committees
  json_proposers :: committees
  json_validators :: committees
  json_ContractCaller :: "nat option"

definition exported :: "nat \<Rightarrow> heap \<Rightarrow> SnapshotJSON" where
  "exported p h =
     \<lparr>json_number = Number (snaps h ! p), json_hash = Hash (snaps h ! p),
      json_candidates = Candidates (snaps h ! p),
      json_signers = gomaps h ! RecentSigners (snaps h ! p),
      json_proposers = gomaps h ! RecentProposers (snaps h ! p),
      json_validators = gomaps h ! RecentValidators (snaps h ! p),
      json_ContractCaller = ContractCaller (snaps h ! p)\<rparr>"





text \<open>
  A \<^verbatim>\<open>range\<close> loop over a map visits every key once, in an order Go does not fix.  The
  order is the list \<open>ks\<close>; the loop body here is always \<^verbatim>\<open>cpy.setRecentSigners(term, v)\<close>.
\<close>

fun rangeSetRecentSigners :: "uint64 \<Rightarrow> nat \<Rightarrow> committees \<Rightarrow> uint64 list \<Rightarrow> heap \<Rightarrow> heap" where
  "rangeSetRecentSigners ovf cpy m [] h = h"
| "rangeSetRecentSigners ovf cpy m (term # ks) h =
     rangeSetRecentSigners ovf cpy m ks
       (case m term of None \<Rightarrow> h | Some v \<Rightarrow> setRecentSigners ovf cpy term v h)"

text \<open>
  An order fits a map when it lists the keys of the map, each once.
\<close>

definition rangeOrder :: "committees \<Rightarrow> uint64 list \<Rightarrow> bool" where
  "rangeOrder m ks \<longleftrightarrow> distinct ks \<and> set ks = dom m"

text \<open>
  \<^verbatim>\<open>copy\<close>: the struct literal makes the maps in the order signers, validators,
  proposers; each of the three \<^verbatim>\<open>range\<close> statements calls \<^verbatim>\<open>cpy.setRecentSigners\<close>.
  \<open>ks1\<close>, \<open>ks2\<close>, \<open>ks3\<close> are the orders in which the three statements visit the keys.
\<close>

definition copy :: "uint64 \<Rightarrow> uint64 list \<Rightarrow> uint64 list \<Rightarrow> uint64 list \<Rightarrow> nat \<Rightarrow> heap \<Rightarrow> heap \<times> nat" where
  "copy ovf ks1 ks2 ks3 s h =
     (let r = length (gomaps h);
          cpy = length (snaps h);
          h1 = h\<lparr>snaps := snaps h @
                  [\<lparr>Number = number s h, Hash = hash s h, Candidates = candidates s h,
                    RecentSigners = r, RecentProposers = r + 2, RecentValidators = r + 1,
                    config = config (snaps h ! s), ContractCaller = None\<rparr>],
                gomaps := gomaps h @ [Map.empty, Map.empty, Map.empty]\<rparr>;
          h2 = rangeSetRecentSigners ovf cpy (recentSigners s h1) ks1 h1;
          h3 = rangeSetRecentSigners ovf cpy (recentProposers s h2) ks2 h2;
          h4 = rangeSetRecentSigners ovf cpy (recentValidators s h3) ks3 h3
      in (h4, cpy))"

subsection \<open>Applying headers\<close>

definition defaultCandidates :: "address list" where
  "defaultCandidates =
     [0xe94b7b6c5a0e526a4d97f9768ad6097bde25c62a,
      0xc05302acebd0730e3a18a058d7d1cb1204c4a092,
      0xef3dd127de235f15ffb4fc0d71469d1339df6465,
      0x3a18598184ef84198db90c28fdfdfdf56544f747,
      0x6e31e5b68a98dcd17264bd1ba547d0b3e874da1e,
      0x22a672eab2b1a3ff3ed91563205a56ca5a560e08,
      0x7b2f052a372951d02798853e39ee56c895109992,
      0x2f0176cc3a8617b6ddea6a501028fa4c6fc25ca1,
      0xe4d51117832e84f1d082e9fc12439b771a57e7b2,
      0x32bd7c33bb5060a85f361caf20c0bda9075c5d51]"

text \<open>A procedure returning \<^verbatim>\<open>error\<close> returns the store and \<open>None\<close> for \<^verbatim>\<open>nil\<close>.\<close>

definition updateCandidates :: "nat \<Rightarrow> Header \<Rightarrow> heap \<Rightarrow> heap \<times> error option" where
  "updateCandidates p header h = (setCandidates p defaultCandidates h, None)"

definition updateRpts :: "nat \<Rightarrow> Header \<Rightarrow> heap \<Rightarrow> error + Rpt list" where
  "updateRpts p header h =
     Inr (map (\<lambda>(idx, candidate). \<lparr>Address = candidate, RptValue = of_nat idx\<rparr>)
            (enumerate 0 (candidates p h)))"

definition ifUseDefaultSigners :: "nat \<Rightarrow> heap \<Rightarrow> bool" where
  "ifUseDefaultSigners p h \<longleftrightarrow> number p h < MaxInitBlockNumber (config (snaps h ! p))"

definition ifUseDefaultProposers :: "nat \<Rightarrow> heap \<Rightarrow> bool" where
  "ifUseDefaultProposers p h \<longleftrightarrow> Number (snaps h ! p) < MaxInitBlockNumber (config (snaps h ! p))"

definition ifStartElection :: "nat \<Rightarrow> heap \<Rightarrow> bool" where
  "ifStartElection p h \<longleftrightarrow>
     (let c = config (snaps h ! p)
      in number p h \<ge> MaxInitBlockNumber c
           - (TermLen c * (TermGapBetweenElectionAndMining - 1) * ViewLen c))"

text \<open>
  \<^verbatim>\<open>election.Elect\<close> is not among the sources: it is the parameter \<open>elect\<close>, called with the
  reputations, the seed and \<^verbatim>\<open>int(s.config.TermLen)\<close>.  The slice expression
  \<^verbatim>\<open>s.candidates()[:s.config.TermLen]\<close> panics beyond the capacity, which for every slice
  made in this file is its length.
\<close>

definition updateSigners ::
  "uint64 \<Rightarrow> (Rpt list \<Rightarrow> int64 \<Rightarrow> int \<Rightarrow> address list) \<Rightarrow> nat \<Rightarrow> Rpt list \<Rightarrow> int64 \<Rightarrow> heap
     \<Rightarrow> heap \<times> error option" where
  "updateSigners ovf elect p rpts seed h =
     (let c = config (snaps h ! p)
      in if length (candidates p h) < unat (TermLen c) then (h, Some PanicSliceBounds)
         else
           let signers = take (unat (TermLen c)) (candidates p h);
               step1 = (if ifUseDefaultSigners p h
                        then (case Term p h of
                                Inl e \<Rightarrow> (h, Some e)
                              | Inr t \<Rightarrow> (setRecentSigners ovf p (t + 1) signers h, None))
                        else (h, None))
           in case step1 of
                (h1, Some e) \<Rightarrow> (h1, Some e)
              | (h1, None) \<Rightarrow>
                  if ifStartElection p h1
                  then (let elected = elect rpts seed (sint (TermLen c))
                        in case FutureTermOf p (number p h1) h1 of
                             Inl e \<Rightarrow> (h1, Some e)
                           | Inr term \<Rightarrow> (setRecentSigners ovf p term elected h1, None))
                  else (h1, None))"

definition updateProposers ::
  "uint64 \<Rightarrow> (Rpt list \<Rightarrow> int64 \<Rightarrow> int \<Rightarrow> address list) \<Rightarrow> nat \<Rightarrow> Rpt list \<Rightarrow> int64 \<Rightarrow> heap
     \<Rightarrow> heap \<times> error option" where
  "updateProposers ovf elect p rpts seed h =
     (let c = config (snaps h ! p)
      in if length (candidates p h) < unat (TermLen c) then (h, Some PanicSliceBounds)
         else
           let proposers = take (unat (TermLen c)) (candidates p h);
               step1 = (if ifUseDefaultProposers p h
                        then (case Term p h of
                                Inl e \<Rightarrow> (h, Some e)
                              | Inr t \<Rightarrow> (setRecentProposers ovf p (t + 1) proposers h, None))
                        else (h, None))
           in case step1 of
                (h1, Some e) \<Rightarrow> (h1, Some e)
              | (h1, None) \<Rightarrow>
                  if ifStartElection p h1
                  then (let elected = elect rpts seed (sint (TermLen c))
                        in case FutureTermOf p (number p h1) h1 of
                             Inl e \<Rightarrow> (h1, Some e)
                           | Inr term \<Rightarrow> (setRecentProposers ovf p term elected h1, None))
                  else (h1, None))"

text \<open>
  \<^verbatim>\<open>header.Hash().Big().Int64()\<close>: the hash as a big-endian number, of which \<^verbatim>\<open>Int64\<close> keeps
  the low 64 bits.
\<close>

definition BigInt64 :: "hash \<Rightarrow> int64" where
  "BigInt64 x = ucast x"

text \<open>
  \<^verbatim>\<open>IsCheckPoint\<close> is not among the sources either: it is the parameter \<open>isCheckPoint\<close>,
  called with the number, \<open>TermLen\<close> and \<open>ViewLen\<close>.
\<close>

definition applyHeader ::
  "uint64 \<Rightarrow> (Rpt list \<Rightarrow> int64 \<Rightarrow> int \<Rightarrow> address list) \<Rightarrow> (uint64 \<Rightarrow> uint64 \<Rightarrow> uint64 \<Rightarrow> bool)
     \<Rightarrow> nat \<Rightarrow> Header \<Rightarrow> heap \<Rightarrow> heap \<times> error option" where
  "applyHeader ovf elect isCheckPoint p header h =
     (let h1 = setNumber p (NumberU64 header) h;
          h2 = setHash p (HashOf header) h1
      in case updateCandidates p header h2 of
           (h3, Some e) \<Rightarrow> (h3, Some e)
         | (h3, None) \<Rightarrow>
             (case updateRpts p header h3 of
                Inl e \<Rightarrow> (h3, Some e)
              | Inr rpts \<Rightarrow>
                  if isCheckPoint (number p h3) (TermLen (config (snaps h3 ! p)))
                       (ViewLen (config (snaps h3 ! p)))
                  then (let seed = BigInt64 (HashOf header)
                        in case updateSigners ovf elect p rpts seed h3 of
                             (h4, Some e) \<Rightarrow> (h4, Some e)
                           | (h4, None) \<Rightarrow> (h4, None))
                  else (h3, None)))"

text \<open>The sanity loop of \<^verbatim>\<open>apply\<close> over consecutive pairs.\<close>

fun consecutive :: "Header list \<Rightarrow> bool" where
  "consecutive (x # y # hs) = (NumberU64 y = NumberU64 x + 1 \<and> consecutive (y # hs))"
| "consecutive hs = True"

fun applyLoop ::
  "uint64 \<Rightarrow> (Rpt list \<Rightarrow> int64 \<Rightarrow> int \<Rightarrow> address list) \<Rightarrow> (uint64 \<Rightarrow> uint64 \<Rightarrow> uint64 \<Rightarrow> bool)
     \<Rightarrow> nat \<Rightarrow> Header list \<Rightarrow> heap \<Rightarrow> heap \<times> error option" where
  "applyLoop ovf elect isCheckPoint snap [] h = (h, None)"
| "applyLoop ovf elect isCheckPoint snap (header # headers) h =
     (case applyHeader ovf elect isCheckPoint snap header h of
        (h1, Some e) \<Rightarrow> (h1, Some e)
      | (h1, None) \<Rightarrow> applyLoop ovf elect isCheckPoint snap headers h1)"

text \<open>
  \<^verbatim>\<open>apply\<close> (the name is an Isar keyword, hence \<open>applyHeaders\<close>).  With no headers it
  returns the receiver itself.
\<close>

definition applyHeaders ::
  "uint64 \<Rightarrow> (Rpt list \<Rightarrow> int64 \<Rightarrow> int \<Rightarrow> address list) \<Rightarrow> (uint64 \<Rightarrow> uint64 \<Rightarrow> uint64 \<Rightarrow> bool)
     \<Rightarrow> uint64 list \<Rightarrow> uint64 list \<Rightarrow> uint64 list
     \<Rightarrow> nat \<Rightarrow> Header list \<Rightarrow> nat option \<Rightarrow> heap \<Rightarrow> heap \<times> (error + nat)" where
  "applyHeaders ovf elect isCheckPoint ks1 ks2 ks3 s headers cc h =
     (if headers = [] then (h, Inr s)
      else if \<not> consecutive headers then (h, Inl InvalidChain)
      else if NumberU64 (hd headers) \<noteq> Number (snaps h ! s) + 1 then (h, Inl InvalidChain)
      else
        (case copy ovf ks1 ks2 ks3 s h of
           (h1, snap) \<Rightarrow>
             (let h2 = setContractCaller snap cc h1
              in case applyLoop ovf elect isCheckPoint snap headers h2 of
                   (h3, Some e) \<Rightarrow> (h3, Inl e)
                 | (h3, None) \<Rightarrow>
                     (let h4 = setNumber snap (NumberU64 (last headers)) h3;
                          h5 = setHash snap (HashOf (last headers)) h4
                      in (h5, Inr snap)))))"

section \<open>The unconfirmed-block tracker (miner/unconfirmed.go)\<close>

text \<open>
  The ring \<^verbatim>\<open>set.blocks\<close> is the list of its values read from \<^verbatim>\<open>set.blocks\<close> onwards: the
  head is the oldest block, the nil ring is \<open>[]\<close>.  \<^verbatim>\<open>set.blocks.Move(-1).Link(item)\<close> puts
  \<open>item\<close> behind the last element.  The values are pointers to blocks allocated one per
  \<^verbatim>\<open>Insert\<close>, so \<^verbatim>\<open>set.blocks.Value == set.blocks.Next().Value\<close> holds exactly in a ring of
  one element.  The lines written to the log are returned as a list of reports.
  \<open>depth\<close> is the field after \<^verbatim>\<open>uint64(set.depth)\<close>.
\<close>

record unconfirmedBlock =
  index :: uint64
  blockHash :: hash

datatype report =
    MinedPotentialBlock uint64 hash
  | FailedToRetrieve uint64 hash
  | ReachedCanonicalChain uint64 hash
  | BecameSideFork uint64 hash

record unconfirmedBlocks =
  chain :: "uint64 \<Rightarrow> Header option"
  depth :: uint64
  blocks :: "unconfirmedBlock list"

definition newUnconfirmedBlocks :: "(uint64 \<Rightarrow> Header option) \<Rightarrow> uint64 \<Rightarrow> unconfirmedBlocks" where
  "newUnconfirmedBlocks c d = \<lparr>chain = c, depth = d, blocks = []\<rparr>"

definition classify :: "(uint64 \<Rightarrow> Header option) \<Rightarrow> unconfirmedBlock \<Rightarrow> report" where
  "classify c blk =
     (case c (index blk) of
        None \<Rightarrow> FailedToRetrieve (index blk) (blockHash blk)
      | Some header \<Rightarrow>
          if HashOf header = blockHash blk then ReachedCanonicalChain (index blk) (blockHash blk)
          else BecameSideFork (index blk) (blockHash blk))"

text \<open>
  Dropping the front block: a ring of one becomes nil, otherwise the ring moves back one
  step, unlinks the element after it and moves forward again.
\<close>

definition dropFront :: "unconfirmedBlock list \<Rightarrow> unconfirmedBlock list" where
  "dropFront ring = (case tl ring of [] \<Rightarrow> [] | x # xs \<Rightarrow> x # xs)"

function shiftLoop ::
  "(uint64 \<Rightarrow> Header option) \<Rightarrow> uint64 \<Rightarrow> uint64 \<Rightarrow> unconfirmedBlock list
     \<Rightarrow> unconfirmedBlock list \<times> report list" where
  "shiftLoop c d height ring =
     (case ring of
        [] \<Rightarrow> ([], [])
      | blk # rest \<Rightarrow>
          if index blk + d > height then (ring, [])
          else (let line = classify c blk;
                    (ring', lines) = shiftLoop c d height (dropFront ring)
                in (ring', line # lines)))"
  by pat_completeness auto
termination
  by (relation "measure (\<lambda>(c, d, height, ring). length ring)")
     (auto simp: dropFront_def split: list.splits)

declare shiftLoop.simps [simp del]

definition Shift :: "uint64 \<Rightarrow> unconfirmedBlocks \<Rightarrow> unconfirmedBlocks \<times> report list" where
  "Shift height uset =
     (let (ring, lines) = shiftLoop (chain uset) (depth uset) height (blocks uset)
      in (uset\<lparr>blocks := ring\<rparr>, lines))"

definition Insert :: "uint64 \<Rightarrow> hash \<Rightarrow> unconfirmedBlocks \<Rightarrow> unconfirmedBlocks \<times> report list" where
  "Insert idx hsh uset =
     (let (set1, lines) = Shift idx uset;
          item = \<lparr>index = idx, blockHash = hsh\<rparr>
      in (set1\<lparr>blocks := (if blocks set1 = [] then [item] else blocks set1 @ [item])\<rparr>,
          lines @ [MinedPotentialBlock idx hsh]))"

section \<open>Well-formed stores and frames\<close>

text \<open>
  \<open>p\<close> points to a snapshot whose three maps are allocated and are three different
  objects, as after \<^verbatim>\<open>newSnapshot\<close>, \<^verbatim>\<open>copy\<close> and \<^verbatim>\<open>loadSnapshot\<close>.
\<close>

definition validSnapshot :: "nat \<Rightarrow> heap \<Rightarrow> bool" where
  "validSnapshot p h \<longleftrightarrow>
     p < length (snaps h)
     \<and> RecentSigners (snaps h ! p) < length (gomaps h)
     \<and> RecentProposers (snaps h ! p) < length (gomaps h)
     \<and> RecentValidators (snaps h ! p) < length (gomaps h)
     \<and> distinct [RecentSigners (snaps h ! p), RecentProposers (snaps h ! p),
                   RecentValidators (snaps h ! p)]"

text \<open>
  From \<open>h\<close> to \<open>h'\<close> nothing was allocated, and nothing was written but the scalar fields
  of the struct at \<open>p\<close> and the signers map of that struct.
\<close>

definition touchesOnly :: "nat \<Rightarrow> heap \<Rightarrow> heap \<Rightarrow> bool" where
  "touchesOnly p h h' \<longleftrightarrow>
     length (snaps h') = length (snaps h) \<and> length (gomaps h') = length (gomaps h)
     \<and> (\<forall>i. i \<noteq> p \<longrightarrow> snaps h' ! i = snaps h ! i)
     \<and> (\<forall>j. j \<noteq> RecentSigners (snaps h ! p) \<longrightarrow> gomaps h' ! j = gomaps h ! j)
     \<and> RecentSigners (snaps h' ! p) = RecentSigners (snaps h ! p)
     \<and> RecentProposers (snaps h' ! p) = RecentProposers (snaps h ! p)
     \<and> RecentValidators (snaps h' ! p) = RecentValidators (snaps h ! p)
     \<and> config (snaps h' ! p) = config (snaps h ! p)"

section \<open>Concrete scenario\<close>

text \<open>
  The configuration of the end-to-end scenarios: \<open>TermLen = 4\<close>, \<open>ViewLen = 3\<close>; with
  \<open>MaxInitBlockNumber = 24\<close> elections start at the first block.  The out-of-range
  conversion yields \<open>2 ^ 63\<close>, as the amd64 compiler's code does.
\<close>

definition scenarioConfig :: DporConfig where
  "scenarioConfig = \<lparr>TermLen = 4, ViewLen = 3, MaxInitBlockNumber = 24\<rparr>"

definition scenarioOvf :: uint64 where
  "scenarioOvf = 2 ^ 63"

definition emptyHeap :: heap where
  "emptyHeap = \<lparr>snaps = [], gomaps = []\<rparr>"

definition seedSigners :: "address list" where
  "seedSigners = [0xA, 0xB, 0xC, 0xD]"

text \<open>The store after \<^verbatim>\<open>newSnapshot(config, 0, hash, [A, B, C, D])\<close>; the snapshot is at 0.\<close>

definition genesisHeap :: heap where
  "genesisHeap = fst (newSnapshot scenarioOvf scenarioConfig 0 0 seedSigners emptyHeap)"

text \<open>The genesis store after \<^verbatim>\<open>setRecentProposers(0, [A, B, C, D])\<close> on its snapshot.\<close>

definition proposerHeap :: heap where
  "proposerHeap = setRecentProposers scenarioOvf 0 0 seedSigners genesisHeap"

text \<open>
  Modelled from the spec: \<^verbatim>\<open>IsCheckPoint\<close>, which is not among the sources.  ``A checkpoint
  is a block whose number is the first in a new term
  (\<open>(n - 1) mod (TermLen \<times> ViewLen) == 0\<close>).''  It is used to run the scenarios only; the
  theorems hold for every predicate.
\<close>

definition IsCheckPoint :: "uint64 \<Rightarrow> uint64 \<Rightarrow> uint64 \<Rightarrow> bool" where
  "IsCheckPoint n termLen viewLen \<longleftrightarrow> (n - 1) mod (termLen * viewLen) = 0"

text \<open>
  A stand-in for \<^verbatim>\<open>election.Elect\<close> to run the scenarios with: the first \<open>k\<close> candidates.
  The theorems hold for every election function.
\<close>

definition electFirst :: "Rpt list \<Rightarrow> int64 \<Rightarrow> int \<Rightarrow> address list" where
  "electFirst rpts seed k = map Address (take (nat k) rpts)"

definition scenarioHeader :: "uint64 \<Rightarrow> Header" where
  "scenarioHeader n = \<lparr>NumberU64 = n, HashOf = 0xABCDEF0000000000000000 + ucast n\<rparr>"

text \<open>A canonical chain that holds \<open>scenarioHeader n\<close> at every height \<open>n\<close>.\<close>

definition scenarioChain :: "uint64 \<Rightarrow> Header option" where
  "scenarioChain n = Some (scenarioHeader n)"

text \<open>The reputations of the hard-coded roster: each candidate with its position.\<close>

definition fixedRpts :: "Rpt list" where
  "fixedRpts =
     [\<lparr>Address = 0xe94b7b6c5a0e526a4d97f9768ad6097bde25c62a, RptValue = 0\<rparr>,
      \<lparr>Address = 0xc05302acebd0730e3a18a058d7d1cb1204c4a092, RptValue = 1\<rparr>,
      \<lparr>Address = 0xef3dd127de235f15ffb4fc0d71469d1339df6465, RptValue = 2\<rparr>,
      \<lparr>Address = 0x3a18598184ef84198db90c28fdfdfdf56544f747, RptValue = 3\<rparr>,
      \<lparr>Address = 0x6e31e5b68a98dcd17264bd1ba547d0b3e874da1e, RptValue = 4\<rparr>,
      \<lparr>Address = 0x22a672eab2b1a3ff3ed91563205a56ca5a560e08, RptValue = 5\<rparr>,
      \<lparr>Address = 0x7b2f052a372951d02798853e39ee56c895109992, RptValue = 6\<rparr>,
      \<lparr>Address = 0x2f0176cc3a8617b6ddea6a501028fa4c6fc25ca1, RptValue = 7\<rparr>,
      \<lparr>Address = 0xe4d51117832e84f1d082e9fc12439b771a57e7b2, RptValue = 8\<rparr>,
      \<lparr>Address = 0x32bd7c33bb5060a85f361caf20c0bda9075c5d51, RptValue = 9\<rparr>]"

text \<open>The genesis store after installing proposers for the terms 0, 1, 2, 3 and 4 in turn.\<close>

definition fiveTermHeap :: heap where
  "fiveTermHeap =
     setRecentProposers scenarioOvf 0 4 seedSigners
       (setRecentProposers scenarioOvf 0 3 seedSigners
          (setRecentProposers scenarioOvf 0 2 seedSigners
             (setRecentProposers scenarioOvf 0 1 seedSigners
                (setRecentProposers scenarioOvf 0 0 seedSigners genesisHeap))))"

text \<open>The genesis store after \<^verbatim>\<open>setRecentProposers(1, [E])\<close> on its snapshot.\<close>

definition electedHeap :: heap where
  "electedHeap = setRecentProposers scenarioOvf 0 1 [0xE] genesisHeap"

section \<open>Verification\<close>

subsection \<open>Helper facts\<close>

lemma genesisHeap_eq:
  "genesisHeap =
     \<lparr>snaps = [\<lparr>Number = 0, Hash = 0, Candidates = [], RecentSigners = 0,
                 RecentProposers = 1, RecentValidators = 2,
                 config = scenarioConfig, ContractCaller = None\<rparr>],
      gomaps = [[0 \<mapsto> seedSigners], Map.empty, Map.empty]\<rparr>"
  by (simp add: genesisHeap_def newSnapshot_def emptyHeap_def Term_def number_def Let_def
      setRecentSigners_def beforeTerm_def MaxSizeOfRecentSigners_def float64_of_uint64_def
      roundingExponent_def uint64_of_float64_def scenarioOvf_def)

lemma genesis_config [simp]: "config (snaps genesisHeap ! 0) = scenarioConfig"
  by (simp add: genesisHeap_eq)

lemma div_block: "0 < (L::nat) \<Longrightarrow> 1 \<le> k \<Longrightarrow> (k * L - 1) div L = k - 1"
proof (rule div_nat_eqI)
  assume L: "0 < L" and k: "1 \<le> k"
  then obtain j where j: "k = Suc j" by (cases k) auto
  show "L * (k - 1) \<le> k * L - 1" using L j by (simp add: algebra_simps)
  show "k * L - 1 < L * Suc (k - 1)" using L j by (simp add: algebra_simps)
qed

lemma config_product:
  assumes "unat (TermLen c) * unat (ViewLen c) < 2 ^ 64"
  shows "unat (TermLen c * ViewLen c) = unat (TermLen c) * unat (ViewLen c)"
  using assms by (simp add: unat_mult_lem [THEN iffD1])

lemma config_product_nonzero:
  assumes "0 < unat (TermLen c)" "0 < unat (ViewLen c)"
    and "unat (TermLen c) * unat (ViewLen c) < 2 ^ 64"
  shows "TermLen c * ViewLen c \<noteq> 0"
proof
  assume "TermLen c * ViewLen c = 0"
  then have "unat (TermLen c * ViewLen c) = 0" by simp
  with config_product [OF assms(3)] assms(1,2) show False by simp
qed

lemma TermOf_unat:
  assumes "0 < unat (TermLen (config (snaps h ! p)))" "0 < unat (ViewLen (config (snaps h ! p)))"
    and "unat (TermLen (config (snaps h ! p))) * unat (ViewLen (config (snaps h ! p))) < 2 ^ 64"
    and "n \<noteq> 0"
  shows "\<exists>t. TermOf p n h = Inr t \<and>
             unat t = (unat n - 1) div
                (unat (TermLen (config (snaps h ! p))) * unat (ViewLen (config (snaps h ! p))))"
proof -
  let ?c = "config (snaps h ! p)"
  have "unat (n - 1) = unat n - 1"
    using assms(4) by (simp add: unat_minus_one)
  then have "unat ((n - 1) div (TermLen ?c * ViewLen ?c)) =
      (unat n - 1) div (unat (TermLen ?c) * unat (ViewLen ?c))"
    by (simp add: unat_div config_product [OF assms(3)])
  then show ?thesis
    using config_product_nonzero [OF assms(1,2,3)] assms(4) by (simp add: TermOf_def Let_def)
qed

lemma TermOf_of_nat:
  assumes "0 < unat (TermLen (config (snaps h ! p)))" "0 < unat (ViewLen (config (snaps h ! p)))"
    and "unat (TermLen (config (snaps h ! p))) * unat (ViewLen (config (snaps h ! p))) < 2 ^ 64"
    and "0 < m" and "m < 2 ^ 64"
  shows "TermOf p (of_nat m) h =
           Inr (of_nat ((m - 1) div
                (unat (TermLen (config (snaps h ! p))) * unat (ViewLen (config (snaps h ! p))))))"
proof -
  have m: "unat (of_nat m :: uint64) = m"
    using assms(5) by (simp add: unat_of_nat)
  then have nz: "(of_nat m :: uint64) \<noteq> 0"
    using assms(4) by (metis less_numeral_extra(3) unat_0)
  from TermOf_unat [OF assms(1,2,3) nz] obtain t where
    t: "TermOf p (of_nat m) h = Inr t"
       "unat t = (m - 1) div
          (unat (TermLen (config (snaps h ! p))) * unat (ViewLen (config (snaps h ! p))))"
    using m by auto
  from t(2) have "t = of_nat ((m - 1) div
          (unat (TermLen (config (snaps h ! p))) * unat (ViewLen (config (snaps h ! p)))))"
    by (metis of_nat_unat ucast_id)
  with t(1) show ?thesis by simp
qed

lemma TermOf_total:
  assumes "TermLen (config (snaps h ! p)) * ViewLen (config (snaps h ! p)) \<noteq> 0"
  shows "\<exists>t. TermOf p n h = Inr t \<and>
             FutureTermOf p n h = Inr (t + TermGapBetweenElectionAndMining)"
  using assms by (simp add: TermOf_def FutureTermOf_def Let_def)

subsection \<open>Term arithmetic\<close>

text \<open>
  Claim C8.  With \<open>TermLen\<close> and \<open>ViewLen\<close> positive, and a term length
  \<open>L = TermLen \<times> ViewLen\<close> that is itself a 64-bit number: \<open>TermOf(0) = 0\<close>;
  \<open>TermOf(n) = (n - 1) / L\<close> for every \<open>n > 0\<close>; \<open>FutureTermOf(n) = TermOf(n) + 3\<close>
  (an addition of the 64-bit term type); \<open>TermOf(k \<times> L) = k - 1\<close> for every \<open>k \<ge> 1\<close> and
  \<open>TermOf(k \<times> L + 1) = k\<close>, for the block numbers \<open>k \<times> L\<close> and \<open>k \<times> L + 1\<close> that exist
  as 64-bit numbers.
\<close>

theorem TermOf_term_arithmetic:
  fixes h :: heap and p :: nat
  defines "L \<equiv> unat (TermLen (config (snaps h ! p))) * unat (ViewLen (config (snaps h ! p)))"
  assumes "0 < unat (TermLen (config (snaps h ! p)))"
    and "0 < unat (ViewLen (config (snaps h ! p)))"
    and "L < 2 ^ 64"
  shows "TermOf p 0 h = Inr 0
       \<and> (\<forall>n. n \<noteq> 0 \<longrightarrow> (\<exists>t. TermOf p n h = Inr t \<and> unat t = (unat n - 1) div L))
       \<and> (\<forall>n. \<exists>t. TermOf p n h = Inr t \<and> FutureTermOf p n h = Inr (t + 3))
       \<and> (\<forall>k. 1 \<le> k \<and> k * L < 2 ^ 64 \<longrightarrow> TermOf p (of_nat (k * L)) h = Inr (of_nat (k - 1)))
       \<and> (\<forall>k. k * L + 1 < 2 ^ 64 \<longrightarrow> TermOf p (of_nat (k * L + 1)) h = Inr (of_nat k))"
proof (intro conjI allI impI)
  have Lpos: "0 < L" using assms(2,3) by (simp add: L_def)
  show "TermOf p 0 h = Inr 0" by (simp add: TermOf_def)
  show "\<exists>t. TermOf p n h = Inr t \<and> unat t = (unat n - 1) div L" if "n \<noteq> 0" for n
    using TermOf_unat [OF assms(2,3) assms(4) [unfolded L_def] that] by (simp add: L_def)
  show "\<exists>t. TermOf p n h = Inr t \<and> FutureTermOf p n h = Inr (t + 3)" for n
    using TermOf_total [OF config_product_nonzero [OF assms(2,3) assms(4) [unfolded L_def]]]
    by (simp add: TermGapBetweenElectionAndMining_def)
  show "TermOf p (of_nat (k * L)) h = Inr (of_nat (k - 1))" if "1 \<le> k \<and> k * L < 2 ^ 64" for k
  proof -
    have "0 < k * L" using that Lpos by simp
    from TermOf_of_nat [OF assms(2,3) assms(4) [unfolded L_def] this [unfolded L_def]] that
    show ?thesis using div_block [OF Lpos, of k] by (simp add: L_def)
  qed
  show "TermOf p (of_nat (k * L + 1)) h = Inr (of_nat k)" if "k * L + 1 < 2 ^ 64" for k
  proof -
    have "0 < k * L + 1" by simp
    from TermOf_of_nat [OF assms(2,3) assms(4) [unfolded L_def] this [unfolded L_def]] that
    show ?thesis using Lpos by (simp add: L_def)
  qed
qed

theorem TermOf_term_arithmetic_witness:
  "TermOf 0 0 genesisHeap = Inr 0 \<and> TermOf 0 13 genesisHeap = Inr 1
   \<and> FutureTermOf 0 13 genesisHeap = Inr 4
   \<and> TermOf 0 24 genesisHeap = Inr 1 \<and> TermOf 0 25 genesisHeap = Inr 2"
proof -
  have a: "0 < unat (TermLen (config (snaps genesisHeap ! 0)))"
    and b: "0 < unat (ViewLen (config (snaps genesisHeap ! 0)))"
    and c: "unat (TermLen (config (snaps genesisHeap ! 0)))
              * unat (ViewLen (config (snaps genesisHeap ! 0))) < 2 ^ 64"
    by (simp_all add: scenarioConfig_def)
  note th = TermOf_term_arithmetic [OF a b c]
  have L: "unat (TermLen (config (snaps genesisHeap ! 0)))
             * unat (ViewLen (config (snaps genesisHeap ! 0))) = 12"
    by (simp add: scenarioConfig_def)
  from th have t0: "TermOf 0 0 genesisHeap = Inr 0" by blast
  have "(13 :: uint64) \<noteq> 0" by simp
  with th obtain t where t: "TermOf 0 13 genesisHeap = Inr t" "unat t = (unat (13 :: uint64) - 1) div 12"
    unfolding L by blast
  from t(2) have "unat t = unat (1 :: uint64)" by simp
  then have t1: "t = 1" by (simp only: word_unat_eq_iff)
  from th obtain u where u: "TermOf 0 13 genesisHeap = Inr u" "FutureTermOf 0 13 genesisHeap = Inr (u + 3)"
    by blast
  from th have "1 \<le> (2::nat) \<and> 2 * 12 < (2::nat) ^ 64 \<longrightarrow> TermOf 0 (of_nat (2 * 12)) genesisHeap = Inr (of_nat (2 - 1))"
    unfolding L by blast
  then have t24: "TermOf 0 24 genesisHeap = Inr 1" by simp
  from th have "2 * 12 + 1 < (2::nat) ^ 64 \<longrightarrow> TermOf 0 (of_nat (2 * 12 + 1)) genesisHeap = Inr (of_nat 2)"
    unfolding L by blast
  then have t25: "TermOf 0 25 genesisHeap = Inr 2" by simp
  from t0 t t1 u t24 t25 show ?thesis by simp
qed

lemma viewIn_None: "viewIn a ps = None \<longleftrightarrow> a \<notin> set ps"
  by (induction ps) auto

lemma viewIn_Some:
  "viewIn a ps = Some v \<Longrightarrow> v < length ps \<and> ps ! v = a \<and> (\<forall>j<v. ps ! j \<noteq> a)"
proof (induction ps arbitrary: v)
  case Nil
  then show ?case by simp
next
  case (Cons s ss)
  show ?case
  proof (cases "s = a")
    case True
    with Cons.prems show ?thesis by simp
  next
    case False
    with Cons.prems obtain w where w: "viewIn a ss = Some w" "v = Suc w" by auto
    from Cons.IH [OF w(1)] False w(2) show ?thesis
      by (auto simp: nth_Cons split: nat.splits)
  qed
qed

lemma sint_compare:
  fixes x :: uint64
  assumes "view < 2 ^ 63"
  shows "(int view = sint x) \<longleftrightarrow> (view = unat x)"
proof
  assume eq: "int view = sint x"
  then have "0 \<le> sint x" by (metis of_nat_0_le_iff)
  moreover have "sint x < 2 ^ 64" using sint_lt [of x] by simp
  ultimately have "take_bit 64 (sint x) = sint x" by (simp add: take_bit_int_eq_self)
  then have "uint x = sint x" using uint_sint [of x] by simp
  with eq have "int view = int (unat x)" by simp
  then show "view = unat x" by (simp only: of_nat_eq_iff)
next
  assume eq: "view = unat x"
  with assms have "uint x < 2 ^ 63"
    by (metis of_nat_less_numeral_power_cancel_iff of_nat_unat uint_nat unsigned_of_nat)
  moreover have "- (2 ^ 63) \<le> uint x" by (rule order_trans [of _ 0]) simp_all
  ultimately have "signed_take_bit 63 (uint x) = uint x"
    by (rule signed_take_bit_int_eq_self [rotated])
  then have "sint x = uint x" using sint_uint [of x] by simp
  with eq show "int view = sint x" by simp
qed

lemma inturnSlot_unat:
  assumes "0 < unat (TermLen c)" "0 < unat (ViewLen c)"
    and "unat (TermLen c) * unat (ViewLen c) < 2 ^ 64" and "n \<noteq> 0"
  shows "\<exists>x::uint64. inturnSlot c n = Inr (sint x) \<and>
             unat x = ((unat n - 1) mod (unat (TermLen c) * unat (ViewLen c))) div unat (ViewLen c)"
proof -
  have v: "ViewLen c \<noteq> 0" using assms(2) by auto
  have "unat (n - 1) = unat n - 1"
    using assms(4) by (simp add: unat_minus_one)
  then have "unat (((n - 1) mod (TermLen c * ViewLen c)) div ViewLen c) =
      ((unat n - 1) mod (unat (TermLen c) * unat (ViewLen c))) div unat (ViewLen c)"
    by (simp add: unat_div unat_mod config_product [OF assms(3)])
  then show ?thesis
    using config_product_nonzero [OF assms(1,2,3)] v by (auto simp: inturnSlot_def)
qed

lemma small_cases:
  fixes t :: uint64
  assumes "unat t < 5"
  shows "t = 0 \<or> t = 1 \<or> t = 2 \<or> t = 3 \<or> t = 4"
proof -
  from assms have "unat t = unat (0::uint64) \<or> unat t = unat (1::uint64) \<or> unat t = unat (2::uint64)
      \<or> unat t = unat (3::uint64) \<or> unat t = unat (4::uint64)"
    by simp arith
  then show ?thesis
    by (simp only: word_unat_eq_iff)
qed

lemma beforeTerm_small:
  "unat t < 5 \<Longrightarrow> beforeTerm ovf t 5 = ovf"
proof -
  assume "unat t < 5"
  from small_cases [OF this] show ?thesis
    by (elim disjE)
       (simp_all add: beforeTerm_def float64_of_uint64_def roundingExponent_def
          uint64_of_float64_def unsigned_minus_1_eq_mask mask_eq_exp_minus_1)
qed

lemma beforeTerm_exact:
  assumes "5 \<le> unat t" and "unat t - 5 < 2 ^ 53"
  shows "beforeTerm ovf t 5 = t - 5"
proof -
  have "(5 :: uint64) \<le> t" using assms(1) by (simp add: word_le_nat_alt)
  then have n: "unat (t - 5) = unat t - 5" by (simp add: unat_sub)
  with assms(2) have e: "roundingExponent (unat (t - 5)) = 0"
    by (simp add: roundingExponent_def)
  have "float64_of_uint64 (t - 5) = unat (t - 5)"
    by (simp add: float64_of_uint64_def Let_def e)
  moreover have "unat (t - 5) < 2 ^ 64"
    using unsigned_less [of "t - 5"] by simp
  ultimately show ?thesis
    by (simp add: beforeTerm_def uint64_of_float64_def)
qed

lemma proposerHeap_eq:
  "proposerHeap =
     \<lparr>snaps = [\<lparr>Number = 0, Hash = 0, Candidates = [], RecentSigners = 0,
                 RecentProposers = 1, RecentValidators = 2,
                 config = scenarioConfig, ContractCaller = None\<rparr>],
      gomaps = [[0 \<mapsto> seedSigners], [0 \<mapsto> seedSigners], Map.empty]\<rparr>"
  by (simp add: proposerHeap_def genesisHeap_eq setRecentProposers_def Let_def
      beforeTerm_small MaxSizeOfRecentProposers_def scenarioOvf_def)


subsection \<open>The in-turn rule\<close>

text \<open>
  Claim C7.  \<open>IsProposerOf(a, n)\<close> fails with \<open>GenesisHasNoLeader\<close> when \<open>n = 0\<close>.  For
  \<open>n > 0\<close> it fails with the proposers' \<open>NotInCommittee\<close> error when \<open>a\<close> is absent from
  \<open>ProposersOf(n)\<close>, and otherwise returns whether the 0-based position of the first
  occurrence of \<open>a\<close> in \<open>ProposersOf(n)\<close> equals
  \<open>((n - 1) mod (TermLen \<times> ViewLen)) / ViewLen\<close>.  \<open>IsLeaderOf\<close> gives the same result.
  The configuration has positive \<open>TermLen\<close> and \<open>ViewLen\<close> whose product is a 64-bit
  number, and a committee is shorter than \<open>2 ^ 63\<close>, as every Go slice is.
\<close>

theorem IsProposerOf_inturn_rule:
  fixes h :: heap and p :: nat
  defines "T \<equiv> unat (TermLen (config (snaps h ! p)))"
    and "V \<equiv> unat (ViewLen (config (snaps h ! p)))"
  assumes "0 < T" and "0 < V" and "T * V < 2 ^ 64"
  shows "(n = 0 \<longrightarrow> IsProposerOf p a n h = Inl GenesisBlockNumber)
       \<and> (n \<noteq> 0 \<longrightarrow>
            (\<exists>ps. ProposersOf p n h = Inr ps
               \<and> (a \<notin> set ps \<longrightarrow> IsProposerOf p a n h = Inl ProposerNotInCommittee)
               \<and> (a \<in> set ps \<and> length ps < 2 ^ 63 \<longrightarrow>
                    (\<exists>view. view < length ps \<and> ps ! view = a \<and> (\<forall>j<view. ps ! j \<noteq> a)
                       \<and> IsProposerOf p a n h
                           = Inr (view = ((unat n - 1) mod (T * V)) div V)))))
       \<and> IsLeaderOf p a n h = IsProposerOf p a n h"
proof (intro conjI impI)
  show "IsProposerOf p a n h = Inl GenesisBlockNumber" if "n = 0"
    using that by (simp add: IsProposerOf_def)
  show "IsLeaderOf p a n h = IsProposerOf p a n h"
    by (simp add: IsLeaderOf_def IsProposerOf_def)
  show "\<exists>ps. ProposersOf p n h = Inr ps
          \<and> (a \<notin> set ps \<longrightarrow> IsProposerOf p a n h = Inl ProposerNotInCommittee)
          \<and> (a \<in> set ps \<and> length ps < 2 ^ 63 \<longrightarrow>
               (\<exists>view. view < length ps \<and> ps ! view = a \<and> (\<forall>j<view. ps ! j \<noteq> a)
                  \<and> IsProposerOf p a n h = Inr (view = ((unat n - 1) mod (T * V)) div V)))"
    if n: "n \<noteq> 0"
  proof -
    from TermOf_unat [OF assms(3,4) [unfolded T_def V_def] assms(5) [unfolded T_def V_def] n]
    obtain t where t: "TermOf p n h = Inr t" by blast
    define ps where "ps = getRecentProposers p t h"
    have ps: "ProposersOf p n h = Inr ps"
      using t by (simp add: ProposersOf_def ps_def)
    from inturnSlot_unat [OF assms(3,4) [unfolded T_def V_def] assms(5) [unfolded T_def V_def] n]
    obtain x :: uint64 where x: "inturnSlot (config (snaps h ! p)) n = Inr (sint x)"
      "unat x = ((unat n - 1) mod (T * V)) div V"
      unfolding T_def V_def by blast
    have absent: "IsProposerOf p a n h = Inl ProposerNotInCommittee" if "a \<notin> set ps"
      using that n ps by (simp add: IsProposerOf_def ProposerViewOf_def viewIn_None [THEN iffD2])
    have present: "\<exists>view. view < length ps \<and> ps ! view = a \<and> (\<forall>j<view. ps ! j \<noteq> a)
        \<and> IsProposerOf p a n h = Inr (view = ((unat n - 1) mod (T * V)) div V)"
      if "a \<in> set ps \<and> length ps < 2 ^ 63"
    proof -
      from that obtain view where view: "viewIn a ps = Some view"
        using viewIn_None [of a ps] by auto
      note facts = viewIn_Some [OF view]
      from facts that have "view < 2 ^ 63" by simp
      from sint_compare [OF this, of x] x(2)
      have "(int view = sint x) = (view = ((unat n - 1) mod (T * V)) div V)" by simp
      then have "IsProposerOf p a n h = Inr (view = ((unat n - 1) mod (T * V)) div V)"
        using n ps view x(1) by (simp add: IsProposerOf_def ProposerViewOf_def)
      with facts show ?thesis by blast
    qed
    from ps absent present show ?thesis by blast
  qed
qed

theorem IsProposerOf_inturn_rule_witness:
  "IsProposerOf 0 0xA 0 proposerHeap = Inl GenesisBlockNumber
   \<and> ProposersOf 0 4 proposerHeap = Inr [0xA, 0xB, 0xC, 0xD]
   \<and> IsProposerOf 0 0xE 4 proposerHeap = Inl ProposerNotInCommittee
   \<and> IsProposerOf 0 0xB 4 proposerHeap = Inr True
   \<and> IsProposerOf 0 0xA 4 proposerHeap = Inr False
   \<and> IsLeaderOf 0 0xB 4 proposerHeap = Inr True"
proof -
  let ?ps = "[0xA, 0xB, 0xC, 0xD] :: address list"
  have cfg: "config (snaps proposerHeap ! 0) = scenarioConfig"
    by (simp add: proposerHeap_eq)
  have a: "0 < unat (TermLen (config (snaps proposerHeap ! 0)))"
    and b: "0 < unat (ViewLen (config (snaps proposerHeap ! 0)))"
    and c: "unat (TermLen (config (snaps proposerHeap ! 0)))
              * unat (ViewLen (config (snaps proposerHeap ! 0))) < 2 ^ 64"
    by (simp_all add: cfg scenarioConfig_def)
  note th = IsProposerOf_inturn_rule [OF a b c]
  have ps: "ProposersOf 0 4 proposerHeap = Inr ?ps"
    by (simp add: ProposersOf_def TermOf_def cfg scenarioConfig_def getRecentProposers_def
        proposerHeap_eq seedSigners_def)
  have slot: "(unat (4 :: uint64) - 1) mod
      (unat (TermLen (config (snaps proposerHeap ! 0))) * unat (ViewLen (config (snaps proposerHeap ! 0))))
      div unat (ViewLen (config (snaps proposerHeap ! 0))) = 1"
    by (simp add: cfg scenarioConfig_def)
  have four: "(4 :: uint64) \<noteq> 0" by simp
  have g: "IsProposerOf 0 0xA 0 proposerHeap = Inl GenesisBlockNumber"
    using th [of 0 "0xA"] by blast
  have rule: "(a \<notin> set ?ps \<longrightarrow> IsProposerOf 0 a 4 proposerHeap = Inl ProposerNotInCommittee)
      \<and> (a \<in> set ?ps \<and> length ?ps < 2 ^ 63 \<longrightarrow>
            (\<exists>view. view < length ?ps \<and> ?ps ! view = a \<and> (\<forall>j<view. ?ps ! j \<noteq> a)
               \<and> IsProposerOf 0 a 4 proposerHeap = Inr (view = 1)))" for a
  proof -
    from th [of 4 a, unfolded slot] four obtain ps' where
      p': "ProposersOf 0 4 proposerHeap = Inr ps'"
        "a \<notin> set ps' \<longrightarrow> IsProposerOf 0 a 4 proposerHeap = Inl ProposerNotInCommittee"
        "a \<in> set ps' \<and> length ps' < 2 ^ 63 \<longrightarrow>
            (\<exists>view. view < length ps' \<and> ps' ! view = a \<and> (\<forall>j<view. ps' ! j \<noteq> a)
               \<and> IsProposerOf 0 a 4 proposerHeap = Inr (view = 1))"
      by blast
    from p'(1) ps have "ps' = ?ps" by simp
    with p'(2,3) show ?thesis by blast
  qed
  have e: "IsProposerOf 0 0xE 4 proposerHeap = Inl ProposerNotInCommittee"
    using rule [of "0xE"] by simp
  have "0xB \<in> set ?ps \<and> length ?ps < 2 ^ 63" by simp
  with rule [of "0xB"] obtain v where
    v: "v < length ?ps" "?ps ! v = 0xB" "IsProposerOf 0 0xB 4 proposerHeap = Inr (v = 1)"
    by blast
  from v(1,2) have "v = 1" by (auto simp: nth_Cons' split: if_splits)
  with v(3) have bT: "IsProposerOf 0 0xB 4 proposerHeap = Inr True" by simp
  have "0xA \<in> set ?ps \<and> length ?ps < 2 ^ 63" by simp
  with rule [of "0xA"] obtain w where
    w: "w < length ?ps" "?ps ! w = 0xA" "IsProposerOf 0 0xA 4 proposerHeap = Inr (w = 1)"
    by blast
  from w(1,2) have "w \<noteq> 1" by (auto simp: nth_Cons')
  with w(3) have aF: "IsProposerOf 0 0xA 4 proposerHeap = Inr False" by simp
  from th [of 4 "0xB"] bT have l: "IsLeaderOf 0 0xB 4 proposerHeap = Inr True" by simp
  from g ps e bT aF l show ?thesis by simp
qed

subsection \<open>The placeholder roster and reputations\<close>

lemma candidates_setCandidates:
  "p < length (snaps h) \<Longrightarrow> candidates p (setCandidates p cands h) = cands"
  by (simp add: candidates_def setCandidates_def)

lemma updateRpts_defaultCandidates:
  "candidates p h = defaultCandidates \<Longrightarrow> updateRpts p header h = Inr fixedRpts"
  by (simp add: updateRpts_def defaultCandidates_def fixedRpts_def enumerate_eq_zip upt_rec)

lemma updateRpts_entries:
  "\<exists>rpts. updateRpts p header h = Inr rpts \<and> length rpts = length (candidates p h)
      \<and> (\<forall>i<length rpts. Address (rpts ! i) = candidates p h ! i \<and> RptValue (rpts ! i) = of_nat i)"
  by (simp add: updateRpts_def nth_enumerate_eq)

lemma applyHeader_fixed:
  assumes p: "p < length (snaps h)"
  shows "applyHeader ovf elect isCheckPoint p header h =
           (let h3 = setCandidates p defaultCandidates
                       (setHash p (HashOf header) (setNumber p (NumberU64 header) h))
            in if isCheckPoint (number p h3) (TermLen (config (snaps h3 ! p)))
                    (ViewLen (config (snaps h3 ! p)))
               then updateSigners ovf elect p fixedRpts (BigInt64 (HashOf header)) h3
               else (h3, None))"
proof -
  let ?h2 = "setHash p (HashOf header) (setNumber p (NumberU64 header) h)"
  have "p < length (snaps ?h2)" using p by (simp add: setHash_def setNumber_def)
  then have "candidates p (setCandidates p defaultCandidates ?h2) = defaultCandidates"
    by (rule candidates_setCandidates)
  then have r: "updateRpts p header (setCandidates p defaultCandidates ?h2) = Inr fixedRpts"
    by (rule updateRpts_defaultCandidates)
  show ?thesis
    by (simp add: applyHeader_def Let_def updateCandidates_def r split: prod.splits option.splits)
qed

text \<open>
  Claim C10.  \<open>updateCandidates\<close> sets the roster to the same ten hard-coded addresses
  whatever the header is and returns no error.  \<open>updateRpts\<close> returns no error and one
  entry per candidate, in order, whose score is the candidate's 0-based position in the
  roster.  So after \<open>updateCandidates\<close> the reputations are the fixed list \<open>fixedRpts\<close>,
  and \<open>applyHeader\<close> passes exactly that list to the election step of every checkpoint;
  neither of the two steps can make \<open>applyHeader\<close> fail.
\<close>

theorem updateCandidates_updateRpts_fixed:
  "snd (updateCandidates p header h) = None
   \<and> updateCandidates p header h = updateCandidates p header' h
   \<and> length defaultCandidates = 10
   \<and> (p < length (snaps h) \<longrightarrow>
         candidates p (fst (updateCandidates p header h)) = defaultCandidates)
   \<and> (\<exists>rpts. updateRpts p header h = Inr rpts \<and> length rpts = length (candidates p h)
         \<and> (\<forall>i<length rpts. Address (rpts ! i) = candidates p h ! i
                \<and> RptValue (rpts ! i) = of_nat i))
   \<and> map Address fixedRpts = defaultCandidates
   \<and> map (\<lambda>r. sint (RptValue r)) fixedRpts = [0, 1, 2, 3, 4, 5, 6, 7, 8, 9]
   \<and> (p < length (snaps h) \<longrightarrow>
         updateRpts p header' (fst (updateCandidates p header h)) = Inr fixedRpts)
   \<and> (p < length (snaps h) \<longrightarrow>
         applyHeader ovf elect isCheckPoint p header h =
           (let h3 = setCandidates p defaultCandidates
                       (setHash p (HashOf header) (setNumber p (NumberU64 header) h))
            in if isCheckPoint (number p h3) (TermLen (config (snaps h3 ! p)))
                    (ViewLen (config (snaps h3 ! p)))
               then updateSigners ovf elect p fixedRpts (BigInt64 (HashOf header)) h3
               else (h3, None)))"
proof (intro conjI impI)
  show "snd (updateCandidates p header h) = None"
    by (simp add: updateCandidates_def)
  show "updateCandidates p header h = updateCandidates p header' h"
    by (simp add: updateCandidates_def)
  show "length defaultCandidates = 10"
    by (simp add: defaultCandidates_def)
  show "candidates p (fst (updateCandidates p header h)) = defaultCandidates"
    if "p < length (snaps h)"
    using that by (simp add: updateCandidates_def candidates_setCandidates)
  show "\<exists>rpts. updateRpts p header h = Inr rpts \<and> length rpts = length (candidates p h)
         \<and> (\<forall>i<length rpts. Address (rpts ! i) = candidates p h ! i
                \<and> RptValue (rpts ! i) = of_nat i)"
    by (rule updateRpts_entries)
  show "map Address fixedRpts = defaultCandidates"
    by (simp add: fixedRpts_def defaultCandidates_def)
  show "map (\<lambda>r. sint (RptValue r)) fixedRpts = [0, 1, 2, 3, 4, 5, 6, 7, 8, 9]"
    by (simp add: fixedRpts_def)
  show "updateRpts p header' (fst (updateCandidates p header h)) = Inr fixedRpts"
    if "p < length (snaps h)"
    using that
    by (simp add: updateCandidates_def candidates_setCandidates updateRpts_defaultCandidates)
  show "applyHeader ovf elect isCheckPoint p header h =
           (let h3 = setCandidates p defaultCandidates
                       (setHash p (HashOf header) (setNumber p (NumberU64 header) h))
            in if isCheckPoint (number p h3) (TermLen (config (snaps h3 ! p)))
                    (ViewLen (config (snaps h3 ! p)))
               then updateSigners ovf elect p fixedRpts (BigInt64 (HashOf header)) h3
               else (h3, None))"
    if p: "p < length (snaps h)"
    by (rule applyHeader_fixed [OF p])
qed

theorem updateCandidates_updateRpts_fixed_witness:
  "0 < length (snaps genesisHeap)
   \<and> candidates 0 (fst (updateCandidates 0 (scenarioHeader 1) genesisHeap)) = defaultCandidates
   \<and> updateRpts 0 (scenarioHeader 2) (fst (updateCandidates 0 (scenarioHeader 1) genesisHeap))
       = Inr fixedRpts"
proof -
  have p: "0 < length (snaps genesisHeap)" by (simp add: genesisHeap_eq)
  note th = updateCandidates_updateRpts_fixed [where p = 0 and h = genesisHeap
      and header = "scenarioHeader 1" and header' = "scenarioHeader 2"
      and ovf = scenarioOvf and elect = electFirst and isCheckPoint = IsCheckPoint]
  from th p have "candidates 0 (fst (updateCandidates 0 (scenarioHeader 1) genesisHeap))
      = defaultCandidates" by blast
  moreover from th p have "updateRpts 0 (scenarioHeader 2)
      (fst (updateCandidates 0 (scenarioHeader 1) genesisHeap)) = Inr fixedRpts" by blast
  ultimately show ?thesis using p by simp
qed

subsection \<open>The unconfirmed-block tracker\<close>

lemma dropFront_Cons [simp]: "dropFront (blk # rest) = rest"
  by (simp add: dropFront_def split: list.splits)

lemma shiftLoop_Nil [simp]: "shiftLoop c d height [] = ([], [])"
  by (subst shiftLoop.simps) simp

lemma shiftLoop_Cons:
  "shiftLoop c d height (blk # rest) =
     (if index blk + d > height then (blk # rest, [])
      else (fst (shiftLoop c d height rest), classify c blk # snd (shiftLoop c d height rest)))"
  by (subst shiftLoop.simps) (simp add: Let_def split: prod.splits)

lemma shiftLoop_eq:
  "shiftLoop c d height ring =
     (dropWhile (\<lambda>b. index b + d \<le> height) ring,
      map (classify c) (takeWhile (\<lambda>b. index b + d \<le> height) ring))"
  by (induction ring) (simp_all add: shiftLoop_Cons not_less)

lemma Shift_eq:
  "Shift height uset =
     (uset\<lparr>blocks := dropWhile (\<lambda>b. index b + depth uset \<le> height) (blocks uset)\<rparr>,
      map (classify (chain uset)) (takeWhile (\<lambda>b. index b + depth uset \<le> height) (blocks uset)))"
  by (simp add: Shift_def shiftLoop_eq)

lemma Insert_eq:
  "Insert idx hsh uset =
     (fst (Shift idx uset)\<lparr>blocks := blocks (fst (Shift idx uset)) @ [\<lparr>index = idx, blockHash = hsh\<rparr>]\<rparr>,
      snd (Shift idx uset) @ [MinedPotentialBlock idx hsh])"
  by (simp add: Insert_def Let_def split: prod.splits)

text \<open>
  Claim C9.  \<open>Insert(i, h)\<close> performs \<open>Shift(i)\<close> and then appends \<open>(i, h)\<close> at the end.
  \<open>Shift(height)\<close> removes exactly the longest run of front entries with
  \<open>index + d \<le> height\<close> (an addition of uint64, as the code compares), and reports each
  removed entry once, in order: unknown when the retriever returns nothing, canonical
  inclusion when the retrieved header's hash is the entry's hash, side fork otherwise.
  When the retriever's header at \<open>i\<close> hashes to \<open>h\<close>, \<open>Insert(i, h)\<close> on a new tracker
  followed by \<open>Shift(i + d)\<close> reports canonical inclusion of \<open>(i, h)\<close> exactly once and
  nothing else, and leaves the tracker empty.
\<close>

theorem Insert_Shift_tracker:
  "Insert idx hsh uset =
     (fst (Shift idx uset)\<lparr>blocks := blocks (fst (Shift idx uset)) @ [\<lparr>index = idx, blockHash = hsh\<rparr>]\<rparr>,
      snd (Shift idx uset) @ [MinedPotentialBlock idx hsh])
   \<and> Shift height uset =
     (uset\<lparr>blocks := dropWhile (\<lambda>b. index b + depth uset \<le> height) (blocks uset)\<rparr>,
      map (classify (chain uset)) (takeWhile (\<lambda>b. index b + depth uset \<le> height) (blocks uset)))
   \<and> (chain uset (index blk) = None \<longrightarrow>
         classify (chain uset) blk = FailedToRetrieve (index blk) (blockHash blk))
   \<and> (\<forall>header. chain uset (index blk) = Some header \<longrightarrow>
         classify (chain uset) blk =
           (if HashOf header = blockHash blk then ReachedCanonicalChain (index blk) (blockHash blk)
            else BecameSideFork (index blk) (blockHash blk)))
   \<and> ((\<exists>header. c idx = Some header \<and> HashOf header = hsh) \<longrightarrow>
         (let (set1, lines1) = Insert idx hsh (newUnconfirmedBlocks c d);
              (set2, lines2) = Shift (idx + d) set1
          in blocks set1 = [\<lparr>index = idx, blockHash = hsh\<rparr>]
             \<and> lines1 = [MinedPotentialBlock idx hsh]
             \<and> lines2 = [ReachedCanonicalChain idx hsh]
             \<and> blocks set2 = []))"
proof (intro conjI impI allI)
  show "Insert idx hsh uset =
     (fst (Shift idx uset)\<lparr>blocks := blocks (fst (Shift idx uset)) @ [\<lparr>index = idx, blockHash = hsh\<rparr>]\<rparr>,
      snd (Shift idx uset) @ [MinedPotentialBlock idx hsh])"
    by (rule Insert_eq)
  show "Shift height uset =
     (uset\<lparr>blocks := dropWhile (\<lambda>b. index b + depth uset \<le> height) (blocks uset)\<rparr>,
      map (classify (chain uset)) (takeWhile (\<lambda>b. index b + depth uset \<le> height) (blocks uset)))"
    by (rule Shift_eq)
  show "classify (chain uset) blk = FailedToRetrieve (index blk) (blockHash blk)"
    if "chain uset (index blk) = None"
    using that by (simp add: classify_def)
  show "classify (chain uset) blk =
           (if HashOf header = blockHash blk then ReachedCanonicalChain (index blk) (blockHash blk)
            else BecameSideFork (index blk) (blockHash blk))"
    if "chain uset (index blk) = Some header" for header
    using that by (simp add: classify_def)
  show "let (set1, lines1) = Insert idx hsh (newUnconfirmedBlocks c d);
            (set2, lines2) = Shift (idx + d) set1
        in blocks set1 = [\<lparr>index = idx, blockHash = hsh\<rparr>]
           \<and> lines1 = [MinedPotentialBlock idx hsh]
           \<and> lines2 = [ReachedCanonicalChain idx hsh]
           \<and> blocks set2 = []"
    if "\<exists>header. c idx = Some header \<and> HashOf header = hsh"
    using that
    by (auto simp: Insert_eq Shift_eq newUnconfirmedBlocks_def classify_def)
qed

theorem Insert_Shift_tracker_witness:
  "(\<exists>header. scenarioChain 100 = Some header \<and> HashOf header = HashOf (scenarioHeader 100))
   \<and> (let (set1, lines1) = Insert 100 (HashOf (scenarioHeader 100)) (newUnconfirmedBlocks scenarioChain 5);
            (set2, lines2) = Shift (100 + 5) set1
        in blocks set1 = [\<lparr>index = 100, blockHash = HashOf (scenarioHeader 100)\<rparr>]
           \<and> lines1 = [MinedPotentialBlock 100 (HashOf (scenarioHeader 100))]
           \<and> lines2 = [ReachedCanonicalChain 100 (HashOf (scenarioHeader 100))]
           \<and> blocks set2 = [])"
proof -
  have ex: "\<exists>header. scenarioChain 100 = Some header \<and> HashOf header = HashOf (scenarioHeader 100)"
    by (simp add: scenarioChain_def)
  note th = Insert_Shift_tracker [where c = scenarioChain and idx = 100
      and hsh = "HashOf (scenarioHeader 100)" and d = 5
      and uset = "newUnconfirmedBlocks scenarioChain 5" and height = 105
      and blk = "\<lparr>index = 100, blockHash = HashOf (scenarioHeader 100)\<rparr>"]
  from ex th [THEN conjunct2, THEN conjunct2, THEN conjunct2, THEN conjunct2, THEN mp, OF ex]
  show ?thesis by (rule conjI)
qed

subsection \<open>Frame lemmas\<close>

lemma touchesOnly_refl [simp]: "touchesOnly p h h"
  by (simp add: touchesOnly_def)

lemma touchesOnly_trans:
  "touchesOnly p h h1 \<Longrightarrow> touchesOnly p h1 h2 \<Longrightarrow> touchesOnly p h h2"
  by (simp add: touchesOnly_def)

lemma nth_update_field:
  "(\<And>y. f (g y) = f y) \<Longrightarrow> f (xs[p := g (xs ! p)] ! i) = f (xs ! i)"
  by (cases "p < length xs") (auto simp: nth_list_update list_update_beyond)

lemma touchesOnly_setNumber [simp]: "touchesOnly p h (setNumber p n h)"
  by (auto simp: touchesOnly_def setNumber_def nth_list_update intro: nth_update_field)

lemma touchesOnly_setHash [simp]: "touchesOnly p h (setHash p x h)"
  by (auto simp: touchesOnly_def setHash_def nth_list_update intro: nth_update_field)

lemma touchesOnly_setCandidates [simp]: "touchesOnly p h (setCandidates p cs h)"
  by (auto simp: touchesOnly_def setCandidates_def nth_list_update intro: nth_update_field)

lemma touchesOnly_setContractCaller [simp]: "touchesOnly p h (setContractCaller p cc h)"
  by (auto simp: touchesOnly_def setContractCaller_def nth_list_update intro: nth_update_field)

lemma touchesOnly_setRecentSigners [simp]: "touchesOnly p h (setRecentSigners ovf p t ss h)"
  by (auto simp: touchesOnly_def setRecentSigners_def Let_def)

lemma touchesOnly_updateCandidates:
  "updateCandidates p header h = (h', r) \<Longrightarrow> touchesOnly p h h'"
  by (auto simp: updateCandidates_def)

lemma touchesOnly_updateSigners:
  assumes "updateSigners ovf elect p rpts seed h = (h', r)"
  shows "touchesOnly p h h'"
proof -
  have step: "touchesOnly p h h1"
    if "(if ifUseDefaultSigners p h
         then (case Term p h of
                 Inl e \<Rightarrow> (h, Some e)
               | Inr t \<Rightarrow> (setRecentSigners ovf p (t + 1) (take (unat (TermLen (config (snaps h ! p)))) (candidates p h)) h, None))
         else (h, None)) = (h1, r1)" for h1 r1
    using that by (auto split: if_splits sum.splits)
  from assms show ?thesis
    by (auto simp: updateSigners_def Let_def split: if_splits prod.splits option.splits sum.splits
        dest!: step intro: touchesOnly_trans [OF _ touchesOnly_setRecentSigners])
qed

lemma touchesOnly_applyHeader:
  assumes "applyHeader ovf elect isCheckPoint p header h = (h', r)"
  shows "touchesOnly p h h'"
proof -
  let ?h2 = "setHash p (HashOf header) (setNumber p (NumberU64 header) h)"
  let ?h3 = "setCandidates p defaultCandidates ?h2"
  have h3: "touchesOnly p h ?h3"
    by (blast intro: touchesOnly_trans touchesOnly_setNumber touchesOnly_setHash
        touchesOnly_setCandidates)
  from assms have "h' = ?h3 \<or> (\<exists>rpts seed r'. updateSigners ovf elect p rpts seed ?h3 = (h', r'))"
    by (auto simp: applyHeader_def Let_def updateCandidates_def
        split: if_splits prod.splits option.splits sum.splits)
  with h3 show ?thesis
    by (auto intro: touchesOnly_trans dest: touchesOnly_updateSigners)
qed

lemma touchesOnly_applyLoop:
  "applyLoop ovf elect isCheckPoint p headers h = (h', r) \<Longrightarrow> touchesOnly p h h'"
proof (induction headers arbitrary: h)
  case Nil
  then show ?case by simp
next
  case (Cons header headers)
  obtain h1 r1 where a: "applyHeader ovf elect isCheckPoint p header h = (h1, r1)"
    by (cases "applyHeader ovf elect isCheckPoint p header h")
  note t1 = touchesOnly_applyHeader [OF a]
  show ?case
  proof (cases r1)
    case None
    with Cons.prems a have "applyLoop ovf elect isCheckPoint p headers h1 = (h', r)" by simp
    from Cons.IH [OF this] t1 show ?thesis by (blast intro: touchesOnly_trans)
  next
    case (Some e)
    with Cons.prems a have "h' = h1" by simp
    with t1 show ?thesis by simp
  qed
qed

lemma touchesOnly_rangeSetRecentSigners:
  "touchesOnly p h (rangeSetRecentSigners ovf p m ks h)"
proof (induction ks arbitrary: h)
  case Nil
  then show ?case by simp
next
  case (Cons k ks)
  have "touchesOnly p h (case m k of None \<Rightarrow> h | Some v \<Rightarrow> setRecentSigners ovf p k v h)"
    by (simp split: option.splits)
  from this Cons.IH show ?case
    by (simp del: touchesOnly_setRecentSigners) (blast intro: touchesOnly_trans)
qed

subsection \<open>The setters of the committee maps\<close>

lemma recentSigners_setRecentSigners:
  "RecentSigners (snaps h ! p) < length (gomaps h) \<Longrightarrow>
   recentSigners p (setRecentSigners ovf p t c h) =
     ((recentSigners p h)(t \<mapsto> c))(beforeTerm ovf t 5 := None)"
  by (auto simp: recentSigners_def setRecentSigners_def Let_def MaxSizeOfRecentSigners_def)

lemma recentProposers_setRecentProposers:
  "RecentProposers (snaps h ! p) < length (gomaps h) \<Longrightarrow>
   recentProposers p (setRecentProposers ovf p t c h) =
     ((recentProposers p h)(t \<mapsto> c))(beforeTerm ovf t 5 := None)"
  by (auto simp: recentProposers_def setRecentProposers_def Let_def MaxSizeOfRecentProposers_def)

lemma recentValidators_setRecentValidators:
  "RecentValidators (snaps h ! p) < length (gomaps h) \<Longrightarrow>
   recentValidators p (setRecentValidators ovf p t c h) =
     ((recentValidators p h)(t \<mapsto> c))(beforeTerm ovf t 5 := None)"
  by (auto simp: recentValidators_def setRecentValidators_def Let_def MaxSizeOfRecentValidators_def)

lemma window_card:
  fixes S :: "uint64 set"
  assumes "S \<subseteq> {t. a \<le> unat t \<and> unat t < a + 5}"
  shows "card S \<le> 5"
proof -
  have "inj_on unat S" by (rule inj_onI) (simp add: word_unat_eq_iff)
  then have "card S = card (unat ` S)" by (simp add: card_image)
  also have "unat ` S \<subseteq> {a..<a + 5}" using assms by auto
  then have "card (unat ` S) \<le> card {a..<a + 5}" by (intro card_mono) simp_all
  finally show ?thesis by simp
qed

lemma window_after_install:
  fixes t :: uint64
  assumes "5 \<le> unat t"
    and "D \<subseteq> {u. unat t - 5 \<le> unat u \<and> unat u < unat t}"
  shows "insert t D - {t - 5} \<subseteq> {u. unat t - 4 \<le> unat u \<and> unat u < unat t - 4 + 5}"
proof
  fix u assume u: "u \<in> insert t D - {t - 5}"
  have "(5 :: uint64) \<le> t" using assms(1) by (simp add: word_le_nat_alt)
  then have n: "unat (t - 5) = unat t - 5" by (simp add: unat_sub)
  from u have "u \<noteq> t - 5" by simp
  then have ne: "unat u \<noteq> unat t - 5" using n by (metis word_unat_eq_iff)
  from u have "u = t \<or> u \<in> D" by auto
  then have "unat t - 4 \<le> unat u \<and> unat u < unat t - 4 + 5"
  proof
    assume "u = t"
    then show ?thesis using assms(1) by simp
  next
    assume "u \<in> D"
    with assms(2) have "unat t - 5 \<le> unat u \<and> unat u < unat t" by auto
    with ne assms(1) show ?thesis by arith
  qed
  then show "u \<in> {u. unat t - 4 \<le> unat u \<and> unat u < unat t - 4 + 5}" by simp
qed


lemma validSnapshot_setRecentProposers [simp]:
  "validSnapshot p (setRecentProposers ovf q t c h) = validSnapshot p h"
  by (simp add: validSnapshot_def setRecentProposers_def Let_def)

lemma validSnapshot_genesisHeap [simp]: "validSnapshot 0 genesisHeap"
  by (simp add: validSnapshot_def genesisHeap_eq)

lemma validSnapshot_fiveTermHeap [simp]: "validSnapshot 0 fiveTermHeap"
  by (simp add: fiveTermHeap_def)

lemma recentProposers_genesisHeap: "recentProposers 0 genesisHeap = Map.empty"
  by (simp add: recentProposers_def genesisHeap_eq)

lemma recentProposers_fiveTermHeap:
  "recentProposers 0 fiveTermHeap =
     [0 \<mapsto> seedSigners, 1 \<mapsto> seedSigners, 2 \<mapsto> seedSigners, 3 \<mapsto> seedSigners,
      4 \<mapsto> seedSigners]"
proof -
  have v: "RecentProposers (snaps h ! 0) < length (gomaps h)" if "validSnapshot 0 h" for h
    using that by (simp add: validSnapshot_def)
  show ?thesis
    unfolding fiveTermHeap_def
    by (simp add: recentProposers_setRecentProposers v beforeTerm_small recentProposers_genesisHeap
        scenarioOvf_def)
qed

text \<open>
  Claim C6, as stated, fails: with proposers for the terms 0 to 4 in place, installing a
  committee at term 10 leaves six entries, among them the terms 0 to 4, all strictly
  older than \<open>10 - 5\<close>.
\<close>

theorem setRecentProposers_keeps_old_terms:
  "dom (recentProposers 0 (setRecentProposers scenarioOvf 0 10 seedSigners fiveTermHeap))
     = {0, 1, 2, 3, 4, 10}
   \<and> card (dom (recentProposers 0 (setRecentProposers scenarioOvf 0 10 seedSigners fiveTermHeap)))
     = 6
   \<and> getRecentProposers 0 0 (setRecentProposers scenarioOvf 0 10 seedSigners fiveTermHeap)
     = seedSigners"
proof -
  have v: "RecentProposers (snaps fiveTermHeap ! 0) < length (gomaps fiveTermHeap)"
    using validSnapshot_fiveTermHeap by (simp add: validSnapshot_def)
  have b: "beforeTerm scenarioOvf 10 5 = 5"
    using beforeTerm_exact [of 10 scenarioOvf] by simp
  have m: "recentProposers 0 (setRecentProposers scenarioOvf 0 10 seedSigners fiveTermHeap) =
     [0 \<mapsto> seedSigners, 1 \<mapsto> seedSigners, 2 \<mapsto> seedSigners, 3 \<mapsto> seedSigners,
      4 \<mapsto> seedSigners, 10 \<mapsto> seedSigners]"
    by (simp add: recentProposers_setRecentProposers [OF v] b recentProposers_fiveTermHeap)
  have d: "dom (recentProposers 0 (setRecentProposers scenarioOvf 0 10 seedSigners fiveTermHeap))
     = {0, 1, 2, 3, 4, 10}"
    unfolding m by auto
  have g: "getRecentProposers 0 0 (setRecentProposers scenarioOvf 0 10 seedSigners fiveTermHeap)
     = seedSigners"
    using m by (simp add: getRecentProposers_def recentProposers_def)
  from d g show ?thesis by simp
qed

text \<open>
  Claim C6, amended.  Installing a committee at a term \<open>T\<close> with \<open>5 \<le> T\<close> and
  \<open>T - 5 < 2 ^ 53\<close> through \<open>setRecentProposers\<close> or \<open>setRecentValidators\<close> stores it at
  \<open>T\<close> and deletes the entry of the one term \<open>T - 5\<close>; every other term stays, however
  old.  So the mapping holds at most five entries afterwards when the terms it held
  before lie in the window from \<open>T - 5\<close> to \<open>T - 1\<close>, as they do when committees are
  installed term after term.
\<close>

theorem setRecent_evicts_single_term:
  assumes "validSnapshot p h" and "5 \<le> unat T" and "unat T - 5 < 2 ^ 53"
  shows "recentProposers p (setRecentProposers ovf p T c h)
           = ((recentProposers p h)(T \<mapsto> c))(T - 5 := None)
       \<and> recentValidators p (setRecentValidators ovf p T c h)
           = ((recentValidators p h)(T \<mapsto> c))(T - 5 := None)
       \<and> dom (recentProposers p (setRecentProposers ovf p T c h))
           = insert T (dom (recentProposers p h)) - {T - 5}
       \<and> dom (recentValidators p (setRecentValidators ovf p T c h))
           = insert T (dom (recentValidators p h)) - {T - 5}
       \<and> (dom (recentProposers p h) \<subseteq> {u. unat T - 5 \<le> unat u \<and> unat u < unat T}
            \<longrightarrow> card (dom (recentProposers p (setRecentProposers ovf p T c h))) \<le> 5)
       \<and> (dom (recentValidators p h) \<subseteq> {u. unat T - 5 \<le> unat u \<and> unat u < unat T}
            \<longrightarrow> card (dom (recentValidators p (setRecentValidators ovf p T c h))) \<le> 5)"
proof -
  have rp: "RecentProposers (snaps h ! p) < length (gomaps h)"
    and rv: "RecentValidators (snaps h ! p) < length (gomaps h)"
    using assms(1) by (simp_all add: validSnapshot_def)
  note b = beforeTerm_exact [OF assms(2,3), of ovf]
  have P: "recentProposers p (setRecentProposers ovf p T c h)
           = ((recentProposers p h)(T \<mapsto> c))(T - 5 := None)"
    by (simp add: recentProposers_setRecentProposers [OF rp] b)
  have V: "recentValidators p (setRecentValidators ovf p T c h)
           = ((recentValidators p h)(T \<mapsto> c))(T - 5 := None)"
    by (simp add: recentValidators_setRecentValidators [OF rv] b)
  have dP: "dom (recentProposers p (setRecentProposers ovf p T c h))
           = insert T (dom (recentProposers p h)) - {T - 5}"
    unfolding P by auto
  have dV: "dom (recentValidators p (setRecentValidators ovf p T c h))
           = insert T (dom (recentValidators p h)) - {T - 5}"
    unfolding V by auto
  have cP: "card (dom (recentProposers p (setRecentProposers ovf p T c h))) \<le> 5"
    if "dom (recentProposers p h) \<subseteq> {u. unat T - 5 \<le> unat u \<and> unat u < unat T}"
    unfolding dP by (rule window_card [OF window_after_install [OF assms(2) that]])
  have cV: "card (dom (recentValidators p (setRecentValidators ovf p T c h))) \<le> 5"
    if "dom (recentValidators p h) \<subseteq> {u. unat T - 5 \<le> unat u \<and> unat u < unat T}"
    unfolding dV by (rule window_card [OF window_after_install [OF assms(2) that]])
  from P V dP dV cP cV show ?thesis by blast
qed

lemma dom_fiveTermHeap: "dom (recentProposers 0 fiveTermHeap) = {0, 1, 2, 3, 4}"
  by (simp add: recentProposers_fiveTermHeap insert_commute)

theorem setRecent_evicts_single_term_witness:
  "validSnapshot 0 fiveTermHeap \<and> 5 \<le> unat (5 :: uint64) \<and> unat (5 :: uint64) - 5 < 2 ^ 53
   \<and> dom (recentProposers 0 fiveTermHeap)
        \<subseteq> {u. unat (5 :: uint64) - 5 \<le> unat u \<and> unat u < unat (5 :: uint64)}
   \<and> dom (recentProposers 0 (setRecentProposers scenarioOvf 0 5 seedSigners fiveTermHeap))
        = insert 5 (dom (recentProposers 0 fiveTermHeap)) - {5 - 5}
   \<and> card (dom (recentProposers 0 (setRecentProposers scenarioOvf 0 5 seedSigners fiveTermHeap)))
        \<le> 5"
proof -
  have a: "5 \<le> unat (5 :: uint64)" and b: "unat (5 :: uint64) - 5 < 2 ^ 53" by simp_all
  note th = setRecent_evicts_single_term [OF validSnapshot_fiveTermHeap a b,
      where ovf = scenarioOvf and c = seedSigners]
  have w: "dom (recentProposers 0 fiveTermHeap)
        \<subseteq> {u. unat (5 :: uint64) - 5 \<le> unat u \<and> unat u < unat (5 :: uint64)}"
    unfolding dom_fiveTermHeap by simp
  note d = th [THEN conjunct2, THEN conjunct2, THEN conjunct1]
  note c = th [THEN conjunct2, THEN conjunct2, THEN conjunct2, THEN conjunct2, THEN conjunct1,
      THEN mp, OF w]
  show ?thesis
    by (intro conjI validSnapshot_fiveTermHeap a b w d c)
qed

subsection \<open>The genesis constructor\<close>

lemma newSnapshot_eq:
  assumes "num = 0 \<or> TermLen cfg * ViewLen cfg \<noteq> 0"
  shows "newSnapshot ovf cfg num hsh signers h =
     (\<lparr>snaps = snaps h @
          [\<lparr>Number = num, Hash = hsh, Candidates = [],
            RecentSigners = length (gomaps h), RecentProposers = length (gomaps h) + 1,
            RecentValidators = length (gomaps h) + 2, config = cfg, ContractCaller = None\<rparr>],
        gomaps = gomaps h @
          [(Map.empty((if num = 0 then 0 else (num - 1) div (TermLen cfg * ViewLen cfg)) \<mapsto> signers))
             (beforeTerm ovf (if num = 0 then 0 else (num - 1) div (TermLen cfg * ViewLen cfg)) 5
                := None),
           Map.empty, Map.empty]\<rparr>,
      Inr (length (snaps h)))"
  using assms
  by (auto simp: newSnapshot_def Let_def Term_def number_def setRecentSigners_def
      MaxSizeOfRecentSigners_def nth_append)

text \<open>
  Claim C4, as stated, fails: after \<open>newSnapshot(config, 0, hash, [A, B, C, D])\<close> the
  proposers and validators mappings are empty, and \<open>ProposersOf(0)\<close> is empty.
\<close>

theorem newSnapshot_no_proposers:
  "newSnapshot scenarioOvf scenarioConfig 0 0 seedSigners emptyHeap = (genesisHeap, Inr 0)
   \<and> recentProposers 0 genesisHeap = Map.empty
   \<and> recentValidators 0 genesisHeap = Map.empty
   \<and> ProposersOf 0 0 genesisHeap = Inr []
   \<and> ProposersOf 0 0 genesisHeap \<noteq> Inr seedSigners"
  by (simp add: newSnapshot_eq genesisHeap_eq emptyHeap_def beforeTerm_small scenarioOvf_def
      recentProposers_def recentValidators_def ProposersOf_def TermOf_def
      getRecentProposers_def seedSigners_def)

text \<open>
  Claim C4, amended.  \<open>newSnapshot(config, number, hash, seedSigners)\<close> installs
  \<open>seedSigners\<close> at term \<open>TermOf(number)\<close>, which is term 0 for a genesis snapshot, of the
  signers mapping only, and leaves the proposers mapping and the validators mapping
  empty.  For a genesis snapshot (number 0) with seed \<open>[A, B, C, D]\<close>,
  \<open>SignersOf(0) = [A, B, C, D]\<close>, where the out-of-range conversion of the float
  \<open>2 ^ 64\<close> to uint64 does not give 0, while \<open>ProposersOf(0)\<close> and \<open>ValidatorsOf(0)\<close> are
  empty.
\<close>

theorem newSnapshot_installs_signers_only:
  assumes "newSnapshot ovf cfg num hsh signers h = (h', r)"
    and "num = 0 \<or> TermLen cfg * ViewLen cfg \<noteq> 0"
  shows "\<exists>p t. r = Inr p \<and> validSnapshot p h' \<and> TermOf p num h' = Inr t
       \<and> recentSigners p h' = (Map.empty(t \<mapsto> signers))(beforeTerm ovf t 5 := None)
       \<and> (beforeTerm ovf t 5 \<noteq> t \<longrightarrow> SignersOf p num h' = Inr signers)
       \<and> recentProposers p h' = Map.empty \<and> recentValidators p h' = Map.empty
       \<and> ProposersOf p num h' = Inr [] \<and> ValidatorsOf p num h' = Inr []
       \<and> (num = 0 \<and> ovf \<noteq> 0 \<longrightarrow> t = 0 \<and> SignersOf p 0 h' = Inr signers)"
proof -
  let ?p = "length (snaps h)"
  let ?t = "if num = 0 then 0 else (num - 1) div (TermLen cfg * ViewLen cfg)"
  from assms(1) newSnapshot_eq [OF assms(2), of ovf hsh signers h]
  have h': "h' = \<lparr>snaps = snaps h @
          [\<lparr>Number = num, Hash = hsh, Candidates = [],
            RecentSigners = length (gomaps h), RecentProposers = length (gomaps h) + 1,
            RecentValidators = length (gomaps h) + 2, config = cfg, ContractCaller = None\<rparr>],
        gomaps = gomaps h @
          [(Map.empty(?t \<mapsto> signers))(beforeTerm ovf ?t 5 := None), Map.empty, Map.empty]\<rparr>"
    and r: "r = Inr ?p"
    by simp_all
  have v: "validSnapshot ?p h'"
    by (simp add: h' validSnapshot_def)
  have t: "TermOf ?p num h' = Inr ?t"
    using assms(2) by (auto simp: h' TermOf_def)
  have s: "recentSigners ?p h' = (Map.empty(?t \<mapsto> signers))(beforeTerm ovf ?t 5 := None)"
    by (simp add: h' recentSigners_def nth_append)
  have so: "SignersOf ?p num h' = Inr signers" if "beforeTerm ovf ?t 5 \<noteq> ?t"
    using that t s by (simp add: SignersOf_def getRecentSigners_def recentSigners_def)
  have pe: "recentProposers ?p h' = Map.empty" and ve: "recentValidators ?p h' = Map.empty"
    by (simp_all add: h' recentProposers_def recentValidators_def nth_append)
  have po: "ProposersOf ?p num h' = Inr []" and vo: "ValidatorsOf ?p num h' = Inr []"
    using t pe ve
    by (simp_all add: ProposersOf_def ValidatorsOf_def getRecentProposers_def
        getRecentValidators_def recentProposers_def recentValidators_def)
  have g: "?t = 0 \<and> SignersOf ?p 0 h' = Inr signers" if "num = 0 \<and> ovf \<noteq> 0"
  proof -
    from that have "beforeTerm ovf ?t 5 \<noteq> ?t" by (simp add: beforeTerm_small)
    from so [OF this] that show ?thesis by simp
  qed
  from r v t s so pe ve po vo g show ?thesis by blast
qed

theorem newSnapshot_installs_signers_only_witness:
  "newSnapshot scenarioOvf scenarioConfig 0 0 seedSigners emptyHeap = (genesisHeap, Inr 0)
   \<and> scenarioOvf \<noteq> 0
   \<and> SignersOf 0 0 genesisHeap = Inr seedSigners
   \<and> ProposersOf 0 0 genesisHeap = Inr [] \<and> ValidatorsOf 0 0 genesisHeap = Inr []"
proof -
  have n: "newSnapshot scenarioOvf scenarioConfig 0 0 seedSigners emptyHeap = (genesisHeap, Inr 0)"
    by (simp add: newSnapshot_eq genesisHeap_eq emptyHeap_def beforeTerm_small scenarioOvf_def)
  have z: "(0 :: uint64) = 0 \<or> TermLen scenarioConfig * ViewLen scenarioConfig \<noteq> 0" by simp
  have o: "scenarioOvf \<noteq> 0" by (simp add: scenarioOvf_def)
  from newSnapshot_installs_signers_only [OF n z] obtain p t where
    pt: "Inr 0 = (Inr p :: error + nat)"
      "recentProposers p genesisHeap = Map.empty"
      "ProposersOf p 0 genesisHeap = Inr []" "ValidatorsOf p 0 genesisHeap = Inr []"
      "(0 :: uint64) = 0 \<and> scenarioOvf \<noteq> 0 \<longrightarrow> t = 0 \<and> SignersOf p 0 genesisHeap = Inr seedSigners"
    by blast
  from pt(1) have "p = 0" by simp
  with pt o n show ?thesis by simp
qed

subsection \<open>The copy\<close>

lemma snaps_setRecentSigners [simp]: "snaps (setRecentSigners ovf p t c h) = snaps h"
  by (simp add: setRecentSigners_def Let_def)

lemma snaps_rangeSetRecentSigners [simp]: "snaps (rangeSetRecentSigners ovf p m ks h) = snaps h"
  by (induction ks arbitrary: h) (simp_all split: option.splits)

lemma copy_facts:
  assumes "copy ovf ks1 ks2 ks3 s h = (h', cpy)"
  shows "cpy = length (snaps h)"
    and "snaps h' = snaps h @
          [\<lparr>Number = number s h, Hash = hash s h, Candidates = candidates s h,
            RecentSigners = length (gomaps h), RecentProposers = length (gomaps h) + 2,
            RecentValidators = length (gomaps h) + 1,
            config = config (snaps h ! s), ContractCaller = None\<rparr>]"
    and "length (gomaps h') = length (gomaps h) + 3"
    and "\<And>j. j < length (gomaps h) \<Longrightarrow> gomaps h' ! j = gomaps h ! j"
    and "gomaps h' ! (length (gomaps h) + 1) = Map.empty"
    and "gomaps h' ! (length (gomaps h) + 2) = Map.empty"
proof -
  let ?cpy = "length (snaps h)" and ?r = "length (gomaps h)"
  let ?h1 = "h\<lparr>snaps := snaps h @
                  [\<lparr>Number = number s h, Hash = hash s h, Candidates = candidates s h,
                    RecentSigners = ?r, RecentProposers = ?r + 2, RecentValidators = ?r + 1,
                    config = config (snaps h ! s), ContractCaller = None\<rparr>],
                gomaps := gomaps h @ [Map.empty, Map.empty, Map.empty]\<rparr>"
  let ?h2 = "rangeSetRecentSigners ovf ?cpy (recentSigners s ?h1) ks1 ?h1"
  let ?h3 = "rangeSetRecentSigners ovf ?cpy (recentProposers s ?h2) ks2 ?h2"
  let ?h4 = "rangeSetRecentSigners ovf ?cpy (recentValidators s ?h3) ks3 ?h3"
  from assms have h': "h' = ?h4" and c: "cpy = ?cpy"
    by (auto simp: copy_def Let_def)
  have t: "touchesOnly ?cpy ?h1 ?h4"
    by (blast intro: touchesOnly_trans touchesOnly_rangeSetRecentSigners)
  have r: "RecentSigners (snaps ?h1 ! ?cpy) = ?r" by simp
  show "cpy = length (snaps h)" by (rule c)
  show "snaps h' = snaps h @
          [\<lparr>Number = number s h, Hash = hash s h, Candidates = candidates s h,
            RecentSigners = length (gomaps h), RecentProposers = length (gomaps h) + 2,
            RecentValidators = length (gomaps h) + 1,
            config = config (snaps h ! s), ContractCaller = None\<rparr>]"
    by (simp add: h')
  show "length (gomaps h') = length (gomaps h) + 3"
    using t by (simp add: h' touchesOnly_def)
  show "gomaps h' ! j = gomaps h ! j" if "j < length (gomaps h)" for j
  proof -
    from that have "j \<noteq> RecentSigners (snaps ?h1 ! ?cpy)" by simp
    with t have "gomaps ?h4 ! j = gomaps ?h1 ! j" unfolding touchesOnly_def by blast
    with that show ?thesis by (simp add: h' nth_append)
  qed
  show "gomaps h' ! (length (gomaps h) + 1) = Map.empty"
  proof -
    have "?r + 1 \<noteq> RecentSigners (snaps ?h1 ! ?cpy)" by simp
    with t have "gomaps ?h4 ! (?r + 1) = gomaps ?h1 ! (?r + 1)" unfolding touchesOnly_def by blast
    then show ?thesis by (simp add: h' nth_append)
  qed
  show "gomaps h' ! (length (gomaps h) + 2) = Map.empty"
  proof -
    have "?r + 2 \<noteq> RecentSigners (snaps ?h1 ! ?cpy)" by simp
    with t have "gomaps ?h4 ! (?r + 2) = gomaps ?h1 ! (?r + 2)" unfolding touchesOnly_def by blast
    then show ?thesis by (simp add: h' nth_append)
  qed
qed

lemma electedHeap_eq:
  "electedHeap =
     \<lparr>snaps = [\<lparr>Number = 0, Hash = 0, Candidates = [], RecentSigners = 0,
                 RecentProposers = 1, RecentValidators = 2,
                 config = scenarioConfig, ContractCaller = None\<rparr>],
      gomaps = [[0 \<mapsto> seedSigners], [1 \<mapsto> [0xE]], Map.empty]\<rparr>"
  by (simp add: electedHeap_def genesisHeap_eq setRecentProposers_def Let_def
      beforeTerm_small MaxSizeOfRecentProposers_def scenarioOvf_def)

text \<open>
  Claim C2 against the code.  The snapshot of \<open>electedHeap\<close> has signers for term 0 and
  proposers \<open>[E]\<close> for term 1.  Its copy has no proposers at all: the loop over the
  proposers called \<open>setRecentSigners\<close>, so \<open>[E]\<close> is in the signers mapping of the copy.
\<close>

theorem copy_loses_proposers:
  "rangeOrder (recentSigners 0 electedHeap) [0]
   \<and> rangeOrder (recentProposers 0 electedHeap) [1]
   \<and> rangeOrder (recentValidators 0 electedHeap) []
   \<and> snd (copy scenarioOvf [0] [1] [] 0 electedHeap) = 1
   \<and> recentProposers 0 (fst (copy scenarioOvf [0] [1] [] 0 electedHeap)) = [1 \<mapsto> [0xE]]
   \<and> recentProposers 1 (fst (copy scenarioOvf [0] [1] [] 0 electedHeap)) = Map.empty
   \<and> recentSigners 0 (fst (copy scenarioOvf [0] [1] [] 0 electedHeap)) = [0 \<mapsto> seedSigners]
   \<and> recentSigners 1 (fst (copy scenarioOvf [0] [1] [] 0 electedHeap))
       = [0 \<mapsto> seedSigners, 1 \<mapsto> [0xE]]"
  by (simp add: rangeOrder_def copy_def Let_def electedHeap_eq recentSigners_def
      recentProposers_def recentValidators_def number_def hash_def candidates_def
      setRecentSigners_def MaxSizeOfRecentSigners_def beforeTerm_small scenarioOvf_def)

subsection \<open>Applying headers\<close>

lemma prefix_nthI:
  assumes "length xs \<le> length ys" and "\<And>i. i < length xs \<Longrightarrow> ys ! i = xs ! i"
  shows "prefix xs ys"
proof -
  have "take (length xs) ys = xs"
    using assms by (intro nth_equalityI) simp_all
  then have "ys = xs @ drop (length xs) ys"
    by (metis append_take_drop_id)
  then show ?thesis by (rule prefixI)
qed

lemma consecutive_iff:
  "consecutive hs \<longleftrightarrow>
     (\<forall>i. Suc i < length hs \<longrightarrow> NumberU64 (hs ! Suc i) = NumberU64 (hs ! i) + 1)"
proof (induction hs rule: consecutive.induct)
  case (1 x y hs)
  show ?case
  proof
    assume a: "consecutive (x # y # hs)"
    show "\<forall>i. Suc i < length (x # y # hs) \<longrightarrow>
              NumberU64 ((x # y # hs) ! Suc i) = NumberU64 ((x # y # hs) ! i) + 1"
    proof (intro allI impI)
      fix i assume "Suc i < length (x # y # hs)"
      with a 1 show "NumberU64 ((x # y # hs) ! Suc i) = NumberU64 ((x # y # hs) ! i) + 1"
        by (cases i) auto
    qed
  next
    assume a: "\<forall>i. Suc i < length (x # y # hs) \<longrightarrow>
              NumberU64 ((x # y # hs) ! Suc i) = NumberU64 ((x # y # hs) ! i) + 1"
    from a [rule_format, of 0] have "NumberU64 y = NumberU64 x + 1" by simp
    moreover have "\<forall>i. Suc i < length (y # hs) \<longrightarrow>
              NumberU64 ((y # hs) ! Suc i) = NumberU64 ((y # hs) ! i) + 1"
    proof (intro allI impI)
      fix i assume "Suc i < length (y # hs)"
      with a [rule_format, of "Suc i"]
      show "NumberU64 ((y # hs) ! Suc i) = NumberU64 ((y # hs) ! i) + 1" by simp
    qed
    ultimately show "consecutive (x # y # hs)" using 1 by simp
  qed
qed simp_all

lemma updateSigners_errors:
  "updateSigners ovf elect p rpts seed h = (h', Some e) \<Longrightarrow>
   e = PanicDivideByZero \<or> e = PanicSliceBounds"
  by (auto simp: updateSigners_def Let_def Term_def FutureTermOf_def TermOf_def
      split: if_splits prod.splits option.splits sum.splits)

lemma applyHeader_errors:
  "applyHeader ovf elect isCheckPoint p header h = (h', Some e) \<Longrightarrow>
   e = PanicDivideByZero \<or> e = PanicSliceBounds"
  by (auto simp: applyHeader_def Let_def updateCandidates_def updateRpts_def
      split: if_splits prod.splits option.splits sum.splits dest: updateSigners_errors)

lemma applyLoop_errors:
  "applyLoop ovf elect isCheckPoint p headers h = (h', Some e) \<Longrightarrow>
   e = PanicDivideByZero \<or> e = PanicSliceBounds"
proof (induction headers arbitrary: h)
  case Nil
  then show ?case by simp
next
  case (Cons header headers)
  then show ?case
    by (auto split: prod.splits option.splits dest: applyHeader_errors)
qed


lemma applyHeaders_accepted:
  assumes "applyHeaders ovf elect isCheckPoint ks1 ks2 ks3 s headers cc h = (h', r)"
    and "headers \<noteq> []" and "consecutive headers"
    and "NumberU64 (hd headers) = Number (snaps h ! s) + 1"
  shows "\<exists>h1 h3 r3.
           copy ovf ks1 ks2 ks3 s h = (h1, length (snaps h))
         \<and> applyLoop ovf elect isCheckPoint (length (snaps h)) headers
               (setContractCaller (length (snaps h)) cc h1) = (h3, r3)
         \<and> (case r3 of
               Some e \<Rightarrow> h' = h3 \<and> r = Inl e
             | None \<Rightarrow>
                 h' = setHash (length (snaps h)) (HashOf (last headers))
                        (setNumber (length (snaps h)) (NumberU64 (last headers)) h3)
                 \<and> r = Inr (length (snaps h)))"
proof -
  obtain h1 snap where c: "copy ovf ks1 ks2 ks3 s h = (h1, snap)"
    by (cases "copy ovf ks1 ks2 ks3 s h")
  from copy_facts(1) [OF c] have snap: "snap = length (snaps h)" .
  obtain h3 r3 where l: "applyLoop ovf elect isCheckPoint snap headers
      (setContractCaller snap cc h1) = (h3, r3)"
    by (cases "applyLoop ovf elect isCheckPoint snap headers (setContractCaller snap cc h1)")
  from assms c l show ?thesis
    by (auto simp: applyHeaders_def Let_def snap split: option.splits)
qed

lemma applyHeaders_touches:
  assumes "applyHeaders ovf elect isCheckPoint ks1 ks2 ks3 s headers cc h = (h', r)"
    and "headers \<noteq> []" and "consecutive headers"
    and "NumberU64 (hd headers) = Number (snaps h ! s) + 1"
  shows "\<exists>h1. copy ovf ks1 ks2 ks3 s h = (h1, length (snaps h))
            \<and> touchesOnly (length (snaps h)) h1 h'"
proof -
  let ?q = "length (snaps h)"
  from applyHeaders_accepted [OF assms] obtain h1 h3 r3 where
    c: "copy ovf ks1 ks2 ks3 s h = (h1, ?q)"
    and l: "applyLoop ovf elect isCheckPoint ?q headers (setContractCaller ?q cc h1) = (h3, r3)"
    and f: "case r3 of
               Some e \<Rightarrow> h' = h3 \<and> r = Inl e
             | None \<Rightarrow> h' = setHash ?q (HashOf (last headers))
                        (setNumber ?q (NumberU64 (last headers)) h3) \<and> r = Inr ?q"
    by blast
  have t3: "touchesOnly ?q h1 h3"
    by (rule touchesOnly_trans [OF touchesOnly_setContractCaller touchesOnly_applyLoop [OF l]])
  have "touchesOnly ?q h1 h'"
  proof (cases r3)
    case None
    with f have "h' = setHash ?q (HashOf (last headers))
                        (setNumber ?q (NumberU64 (last headers)) h3)" by simp
    with t3 show ?thesis
      by (blast intro: touchesOnly_trans touchesOnly_setNumber touchesOnly_setHash)
  next
    case (Some e)
    with f t3 show ?thesis by simp
  qed
  with c show ?thesis by blast
qed

lemma copy_touches_prefix:
  assumes c: "copy ovf ks1 ks2 ks3 s h = (h1, length (snaps h))"
    and t: "touchesOnly (length (snaps h)) h1 h'"
  shows "prefix (snaps h) (snaps h')" and "prefix (gomaps h) (gomaps h')"
    and "length (snaps h') = length (snaps h) + 1"
    and "length (gomaps h') = length (gomaps h) + 3"
    and "RecentSigners (snaps h' ! length (snaps h)) = length (gomaps h)"
    and "RecentProposers (snaps h' ! length (snaps h)) = length (gomaps h) + 2"
    and "RecentValidators (snaps h' ! length (snaps h)) = length (gomaps h) + 1"
    and "config (snaps h' ! length (snaps h)) = config (snaps h ! s)"
    and "gomaps h' ! (length (gomaps h) + 1) = Map.empty"
    and "gomaps h' ! (length (gomaps h) + 2) = Map.empty"
proof -
  let ?q = "length (snaps h)" and ?r = "length (gomaps h)"
  note cf = copy_facts [OF c]
  have q1: "snaps h1 ! ?q = \<lparr>Number = number s h, Hash = hash s h, Candidates = candidates s h,
            RecentSigners = ?r, RecentProposers = ?r + 2, RecentValidators = ?r + 1,
            config = config (snaps h ! s), ContractCaller = None\<rparr>"
    by (simp add: cf(2))
  from t have len: "length (snaps h') = length (snaps h1)" "length (gomaps h') = length (gomaps h1)"
    and others: "\<And>i. i \<noteq> ?q \<Longrightarrow> snaps h' ! i = snaps h1 ! i"
    and maps: "\<And>j. j \<noteq> RecentSigners (snaps h1 ! ?q) \<Longrightarrow> gomaps h' ! j = gomaps h1 ! j"
    and refs: "RecentSigners (snaps h' ! ?q) = RecentSigners (snaps h1 ! ?q)"
      "RecentProposers (snaps h' ! ?q) = RecentProposers (snaps h1 ! ?q)"
      "RecentValidators (snaps h' ! ?q) = RecentValidators (snaps h1 ! ?q)"
      "config (snaps h' ! ?q) = config (snaps h1 ! ?q)"
    by (simp_all add: touchesOnly_def)
  show "length (snaps h') = ?q + 1" using len(1) by (simp add: cf(2))
  show "length (gomaps h') = ?r + 3" using len(2) by (simp add: cf(3))
  show "prefix (snaps h) (snaps h')"
  proof (rule prefix_nthI)
    show "length (snaps h) \<le> length (snaps h')" using len(1) by (simp add: cf(2))
    show "snaps h' ! i = snaps h ! i" if "i < length (snaps h)" for i
      using that others [of i] by (simp add: cf(2) nth_append)
  qed
  show "prefix (gomaps h) (gomaps h')"
  proof (rule prefix_nthI)
    show "length (gomaps h) \<le> length (gomaps h')" using len(2) by (simp add: cf(3))
    show "gomaps h' ! j = gomaps h ! j" if "j < length (gomaps h)" for j
      using that maps [of j] cf(4) [of j] by (simp add: q1)
  qed
  show "RecentSigners (snaps h' ! ?q) = ?r" using refs(1) by (simp add: q1)
  show "RecentProposers (snaps h' ! ?q) = ?r + 2" using refs(2) by (simp add: q1)
  show "RecentValidators (snaps h' ! ?q) = ?r + 1" using refs(3) by (simp add: q1)
  show "config (snaps h' ! ?q) = config (snaps h ! s)" using refs(4) by (simp add: q1)
  show "gomaps h' ! (?r + 1) = Map.empty" using maps [of "?r + 1"] cf(5) by (simp add: q1)
  show "gomaps h' ! (?r + 2) = Map.empty" using maps [of "?r + 2"] cf(6) by (simp add: q1)
qed

lemma prefix_exported:
  assumes "prefix (snaps h) (snaps h')" and "prefix (gomaps h) (gomaps h')"
    and "validSnapshot s h"
  shows "validSnapshot s h'" and "exported s h' = exported s h"
    and "config (snaps h' ! s) = config (snaps h ! s)"
proof -
  from assms(1) obtain xs where xs: "snaps h' = snaps h @ xs" by (auto simp: prefix_def)
  from assms(2) obtain ys where ys: "gomaps h' = gomaps h @ ys" by (auto simp: prefix_def)
  from assms(3) have s: "snaps h' ! s = snaps h ! s"
    by (simp add: xs validSnapshot_def nth_append)
  show "validSnapshot s h'"
    using assms(3) by (simp add: validSnapshot_def xs ys nth_append)
  show "exported s h' = exported s h"
    using assms(3) by (simp add: exported_def s validSnapshot_def ys nth_append)
  show "config (snaps h' ! s) = config (snaps h ! s)" by (simp add: s)
qed

text \<open>
  Claim C3.  For a non-empty batch, if some consecutive pair of headers does not increase
  the block number by exactly one (in uint64), or the first header's number differs from
  \<open>s.number + 1\<close>, then \<open>applyHeaders\<close> fails with \<open>InvalidChain\<close> and has written
  nothing.  Whatever the outcome, every struct and map that existed before the call is
  unchanged afterwards, so \<open>s\<close> has the same content; the headers were applied to a new
  copy, which is returned only on success.  The only error returned is
  \<open>InvalidChain\<close>; any other failure is a panic (division by zero, slice bounds).
\<close>

theorem applyHeaders_InvalidChain_frame:
  assumes "headers \<noteq> []"
  shows "((\<exists>i. Suc i < length headers
               \<and> NumberU64 (headers ! Suc i) \<noteq> NumberU64 (headers ! i) + 1)
            \<or> NumberU64 (headers ! 0) \<noteq> number s h + 1
          \<longrightarrow> applyHeaders ovf elect isCheckPoint ks1 ks2 ks3 s headers cc h
                = (h, Inl InvalidChain))
       \<and> (\<forall>h' r. applyHeaders ovf elect isCheckPoint ks1 ks2 ks3 s headers cc h = (h', r) \<longrightarrow>
             prefix (snaps h) (snaps h') \<and> prefix (gomaps h) (gomaps h')
             \<and> (validSnapshot s h \<longrightarrow>
                  validSnapshot s h' \<and> exported s h' = exported s h
                  \<and> config (snaps h' ! s) = config (snaps h ! s))
             \<and> (r = Inl InvalidChain \<longrightarrow> h' = h)
             \<and> (\<forall>e. r = Inl e \<longrightarrow>
                  e = InvalidChain \<or> e = PanicDivideByZero \<or> e = PanicSliceBounds))"
proof (intro conjI impI allI)
  have hd0: "hd headers = headers ! 0" using assms by (simp add: hd_conv_nth)
  show "applyHeaders ovf elect isCheckPoint ks1 ks2 ks3 s headers cc h = (h, Inl InvalidChain)"
    if "(\<exists>i. Suc i < length headers \<and> NumberU64 (headers ! Suc i) \<noteq> NumberU64 (headers ! i) + 1)
        \<or> NumberU64 (headers ! 0) \<noteq> number s h + 1"
    using that assms by (auto simp: applyHeaders_def consecutive_iff hd0 number_def)
  fix h' r
  assume a: "applyHeaders ovf elect isCheckPoint ks1 ks2 ks3 s headers cc h = (h', r)"
  have main: "prefix (snaps h) (snaps h') \<and> prefix (gomaps h) (gomaps h')
      \<and> (r = Inl InvalidChain \<longrightarrow> h' = h)
      \<and> (\<forall>e. r = Inl e \<longrightarrow> e = InvalidChain \<or> e = PanicDivideByZero \<or> e = PanicSliceBounds)"
  proof (cases "consecutive headers \<and> NumberU64 (hd headers) = Number (snaps h ! s) + 1")
    case False
    with a assms have "h' = h" "r = Inl InvalidChain"
      by (auto simp: applyHeaders_def split: if_splits)
    then show ?thesis by simp
  next
    case True
    then have ok: "consecutive headers" "NumberU64 (hd headers) = Number (snaps h ! s) + 1"
      by simp_all
    from applyHeaders_touches [OF a assms ok] obtain h1 where
      c: "copy ovf ks1 ks2 ks3 s h = (h1, length (snaps h))"
      and t: "touchesOnly (length (snaps h)) h1 h'" by blast
    note pre = copy_touches_prefix(1,2) [OF c t]
    from applyHeaders_accepted [OF a assms ok] obtain h1' h3 r3 where
      l: "applyLoop ovf elect isCheckPoint (length (snaps h)) headers
               (setContractCaller (length (snaps h)) cc h1') = (h3, r3)"
      and f: "case r3 of Some e \<Rightarrow> h' = h3 \<and> r = Inl e
              | None \<Rightarrow> h' = setHash (length (snaps h)) (HashOf (last headers))
                        (setNumber (length (snaps h)) (NumberU64 (last headers)) h3)
                 \<and> r = Inr (length (snaps h))"
      by blast
    have e: "e = PanicDivideByZero \<or> e = PanicSliceBounds" if "r = Inl e" for e
    proof -
      from that f have "r3 = Some e" by (cases r3) auto
      with l show ?thesis by (auto dest: applyLoop_errors)
    qed
    from pre e show ?thesis by auto
  qed
  from main show "prefix (snaps h) (snaps h')" by simp
  from main show "prefix (gomaps h) (gomaps h')" by simp
  from main show "h' = h" if "r = Inl InvalidChain" using that by simp
  from main show "e = InvalidChain \<or> e = PanicDivideByZero \<or> e = PanicSliceBounds"
    if "r = Inl e" for e using that by simp
  assume v: "validSnapshot s h"
  from main have p: "prefix (snaps h) (snaps h')" "prefix (gomaps h) (gomaps h')" by simp_all
  from prefix_exported [OF p v]
  show "validSnapshot s h'" "exported s h' = exported s h"
    "config (snaps h' ! s) = config (snaps h ! s)" by simp_all
qed


theorem applyHeaders_InvalidChain_frame_witness:
  "[scenarioHeader 1, scenarioHeader 3] \<noteq> []
   \<and> NumberU64 ([scenarioHeader 1, scenarioHeader 3] ! Suc 0)
       \<noteq> NumberU64 ([scenarioHeader 1, scenarioHeader 3] ! 0) + 1
   \<and> applyHeaders scenarioOvf electFirst IsCheckPoint [0] [] [] 0
         [scenarioHeader 1, scenarioHeader 3] None genesisHeap = (genesisHeap, Inl InvalidChain)
   \<and> validSnapshot 0 genesisHeap
   \<and> exported 0 (fst (applyHeaders scenarioOvf electFirst IsCheckPoint [0] [] [] 0
         [scenarioHeader 1] None genesisHeap)) = exported 0 genesisHeap"
proof -
  let ?bad = "[scenarioHeader 1, scenarioHeader 3]" and ?good = "[scenarioHeader 1]"
  have ne: "?bad \<noteq> []" and ne': "?good \<noteq> []" by simp_all
  have gap: "NumberU64 (?bad ! Suc 0) \<noteq> NumberU64 (?bad ! 0) + 1"
    by (simp add: scenarioHeader_def)
  then have ex: "(\<exists>i. Suc i < length ?bad \<and> NumberU64 (?bad ! Suc i) \<noteq> NumberU64 (?bad ! i) + 1)
      \<or> NumberU64 (?bad ! 0) \<noteq> number 0 genesisHeap + 1"
    by (intro disjI1 exI [of _ 0]) simp
  note bad = applyHeaders_InvalidChain_frame [OF ne, where s = 0 and h = genesisHeap
      and ovf = scenarioOvf and elect = electFirst and isCheckPoint = IsCheckPoint
      and ?ks1.0 = "[0]" and ?ks2.0 = "[]" and ?ks3.0 = "[]" and cc = None]
  from bad [THEN conjunct1, THEN mp, OF ex]
  have r1: "applyHeaders scenarioOvf electFirst IsCheckPoint [0] [] [] 0 ?bad None genesisHeap
      = (genesisHeap, Inl InvalidChain)" .
  note good = applyHeaders_InvalidChain_frame [OF ne', where s = 0 and h = genesisHeap
      and ovf = scenarioOvf and elect = electFirst and isCheckPoint = IsCheckPoint
      and ?ks1.0 = "[0]" and ?ks2.0 = "[]" and ?ks3.0 = "[]" and cc = None]
  obtain h' r where a: "applyHeaders scenarioOvf electFirst IsCheckPoint [0] [] [] 0 ?good None
      genesisHeap = (h', r)"
    by (cases "applyHeaders scenarioOvf electFirst IsCheckPoint [0] [] [] 0 ?good None genesisHeap")
  from good [THEN conjunct2, rule_format, OF a] validSnapshot_genesisHeap
  have "exported 0 h' = exported 0 genesisHeap" by blast
  then have r2: "exported 0 (fst (applyHeaders scenarioOvf electFirst IsCheckPoint [0] [] [] 0
         ?good None genesisHeap)) = exported 0 genesisHeap"
    by (simp add: a)
  show ?thesis
    by (intro conjI ne gap r1 validSnapshot_genesisHeap r2)
qed

subsection \<open>Elections at checkpoints\<close>












subsection \<open>Persistence\<close>




end
